theory Spec2Isabelle
  imports Complex_Main
begin

text \<open>
  A shallow embedding of \<^verbatim>\<open>src/App.tsx\<close>: the per-frame signal generation and
  chart update (\<^verbatim>\<open>updateFrame\<close>), the time axis overlay (\<^verbatim>\<open>drawTimeAxis\<close>), the
  density inputs (\<^verbatim>\<open>handleDensityChange\<close>, \<^verbatim>\<open>onBlur\<close>) and the life cycle of the
  component (\<^verbatim>\<open>useRef\<close>, \<^verbatim>\<open>useEffect\<close>).

  JavaScript numbers are modelled at two levels. In the sections on the overlay, the
  frame and the life cycle a finite number is a \<^typ>\<open>real\<close> and arithmetic on finite
  numbers is exact; where the source can divide by zero the type \<open>number\<close> below adds
  the special values, with the results IEEE 754 gives them. The section on binary64
  models the rounding of every operation; the sample loop of \<^verbatim>\<open>updateFrame\<close> and the
  sub-tick loop of \<^verbatim>\<open>drawTimeAxis\<close> are embedded there once more, with every operation
  rounded, because the number of their iterations and the values they visit depend on
  the rounding of the accumulated sums.
\<close>

section \<open>Numbers\<close>

datatype number = Fin real | PInf | NInf | NaN

text \<open>
  \<^verbatim>\<open>x / y\<close> for finite \<open>x\<close> and \<open>y\<close>, where a zero \<open>y\<close> is the positive zero (the
  only divisor that can be zero is a density, and \<^verbatim>\<open>Math.max(0, -0)\<close> is \<open>+0\<close>).
\<close>

definition jdiv :: "real \<Rightarrow> real \<Rightarrow> number" where
  "jdiv x y =
     (if y \<noteq> 0 then Fin (x / y)
      else if x > 0 then PInf else if x < 0 then NInf else NaN)"

fun jadd :: "number \<Rightarrow> number \<Rightarrow> number" where
  "jadd (Fin x) (Fin y) = Fin (x + y)"
| "jadd NaN _ = NaN"
| "jadd _ NaN = NaN"
| "jadd PInf NInf = NaN"
| "jadd NInf PInf = NaN"
| "jadd PInf _ = PInf"
| "jadd _ PInf = PInf"
| "jadd NInf _ = NInf"
| "jadd _ NInf = NInf"

text \<open>\<^verbatim>\<open>x - y\<close> for a finite \<open>y\<close>.\<close>

fun jsub :: "number \<Rightarrow> real \<Rightarrow> number" where
  "jsub (Fin x) y = Fin (x - y)"
| "jsub PInf y = PInf"
| "jsub NInf y = NInf"
| "jsub NaN y = NaN"

text \<open>\<^verbatim>\<open>x < y\<close> for a finite \<open>y\<close>: false when \<open>x\<close> is NaN.\<close>

fun jlt :: "number \<Rightarrow> real \<Rightarrow> bool" where
  "jlt (Fin x) y = (x < y)"
| "jlt NInf y = True"
| "jlt PInf y = False"
| "jlt NaN y = False"

text \<open>
  \<^verbatim>\<open>a % b\<close> on finite numbers with \<open>b \<noteq> 0\<close>: the remainder has the sign of the
  dividend (the quotient is truncated towards zero).
\<close>

definition trunc :: "real \<Rightarrow> int" where
  "trunc x = (if 0 \<le> x then \<lfloor>x\<rfloor> else \<lceil>x\<rceil>)"

definition js_rem :: "real \<Rightarrow> real \<Rightarrow> real" where
  "js_rem a b = a - b * of_int (trunc (a / b))"

section \<open>Dates and the time-of-day string\<close>

text \<open>
  \<^verbatim>\<open>new Date(v)\<close> for a finite number \<open>v\<close>: the time value is \<open>v\<close> truncated to an
  integer, and the date is invalid (\<open>None\<close>) beyond 8.64e15 ms. The getters read the
  local time \<open>t + tza t\<close>, where \<open>tza\<close> is the offset of the host's time zone at \<open>t\<close>
  (a parameter: the host supplies it); on an invalid date they return NaN.
\<close>

type_synonym date = "int option"

definition newDate :: "real \<Rightarrow> date" where
  "newDate v = (if \<bar>v\<bar> > 8640000000000000 then None else Some (trunc v))"

definition getHours :: "(int \<Rightarrow> int) \<Rightarrow> date \<Rightarrow> nat option" where
  "getHours tza d = map_option (\<lambda>t. nat (((t + tza t) div 3600000) mod 24)) d"

definition getMinutes :: "(int \<Rightarrow> int) \<Rightarrow> date \<Rightarrow> nat option" where
  "getMinutes tza d = map_option (\<lambda>t. nat (((t + tza t) div 60000) mod 60)) d"

definition getSeconds :: "(int \<Rightarrow> int) \<Rightarrow> date \<Rightarrow> nat option" where
  "getSeconds tza d = map_option (\<lambda>t. nat (((t + tza t) div 1000) mod 60)) d"

definition getMilliseconds :: "(int \<Rightarrow> int) \<Rightarrow> date \<Rightarrow> nat option" where
  "getMilliseconds tza d = map_option (\<lambda>t. nat ((t + tza t) mod 1000)) d"

definition digitChar :: "nat \<Rightarrow> char" where
  "digitChar n = ''0123456789'' ! n"

fun natToString :: "nat \<Rightarrow> string" where
  "natToString n =
     (if n < 10 then [digitChar n]
      else natToString (n div 10) @ [digitChar (n mod 10)])"

declare natToString.simps [simp del]

text \<open>\<^verbatim>\<open>toString()\<close> of the result of a getter: NaN prints as \<^verbatim>\<open>NaN\<close>.\<close>

definition toString :: "nat option \<Rightarrow> string" where
  "toString v = (case v of None \<Rightarrow> ''NaN'' | Some n \<Rightarrow> natToString n)"

definition padStart :: "nat \<Rightarrow> char \<Rightarrow> string \<Rightarrow> string" where
  "padStart n c s = replicate (n - length s) c @ s"

text \<open>
  The template literal that \<^verbatim>\<open>drawTimeAxis\<close> writes three times (for \<^verbatim>\<open>labelTime\<close>,
  \<^verbatim>\<open>startTime\<close> and \<^verbatim>\<open>endTime\<close>): hours, minutes and seconds padded to two digits,
  and the first two digits of the milliseconds padded to three.
\<close>

definition timeStr :: "(int \<Rightarrow> int) \<Rightarrow> date \<Rightarrow> string" where
  "timeStr tza d =
     padStart 2 (CHR ''0'') (toString (getHours tza d)) @ '':'' @
     padStart 2 (CHR ''0'') (toString (getMinutes tza d)) @ '':'' @
     padStart 2 (CHR ''0'') (toString (getSeconds tza d)) @ ''.'' @
     take 2 (padStart 3 (CHR ''0'') (toString (getMilliseconds tza d)))"

section \<open>The time axis overlay: \<^verbatim>\<open>drawTimeAxis\<close>\<close>

text \<open>The calls on the 2D context, in the order the source makes them.\<close>

datatype cmd =
    ClearRect real real real real
  | BeginPath
  | StrokeStyle string
  | LineWidth real
  | MoveTo real real
  | LineTo real real
  | Stroke
  | Font string
  | FillStyle string
  | TextAlign string
  | FillText string real real
  | FillRect real real real real

definition scrollOffset :: "real \<Rightarrow> real \<Rightarrow> real" where
  "scrollOffset currentTime width = js_rem currentTime 2000 / 2000 * (width / 5)"

text \<open>
  The body of the sub-tick loop for the position \<open>x = i - offset\<close>. The test
  \<^verbatim>\<open>x >= 0 && x <= width\<close> fails when \<open>x\<close> is an infinity or NaN.
\<close>

definition subTick :: "real \<Rightarrow> number \<Rightarrow> cmd list" where
  "subTick width x =
     (case x of
        Fin r \<Rightarrow> if r \<ge> 0 \<and> r \<le> width then [MoveTo r 0, LineTo r 3] else []
      | _ \<Rightarrow> [])"

text \<open>
  \<^verbatim>\<open>for (let i = 0; i < width; i += width / xScaleDensity)\<close>, with \<open>step\<close> the value of
  \<^verbatim>\<open>width / xScaleDensity\<close>. The loop need not end (a step that is not positive), so
  the result is optional: \<open>None\<close> is a loop that never returns. The sums of this
  section are exact; \<open>subTickLoop64\<close> in the section on binary64 is the loop with every
  operation rounded, and the number of sub-ticks for a density above 0 is settled there.
\<close>

partial_function (option)
  subTickLoop :: "real \<Rightarrow> real \<Rightarrow> number \<Rightarrow> number \<Rightarrow> cmd list \<Rightarrow> cmd list option"
where
  "subTickLoop width offset step i path =
     (if jlt i width
      then subTickLoop width offset step (jadd i step) (path @ subTick width (jsub i offset))
      else Some path)"

definition subScale :: "bool \<Rightarrow> int \<Rightarrow> real \<Rightarrow> real \<Rightarrow> cmd list option" where
  "subScale showXSubScale xScaleDensity currentTime width =
     (if showXSubScale
      then map_option (\<lambda>path. [BeginPath, StrokeStyle ''#999'', LineWidth 0.5] @ path @ [Stroke])
             (subTickLoop width (scrollOffset currentTime width)
                (jdiv width (of_int xScaleDensity)) (Fin 0) [])
      else Some [])"

definition tickX :: "real \<Rightarrow> real \<Rightarrow> nat \<Rightarrow> real" where
  "tickX currentTime width i = of_nat i * (width / 5) - scrollOffset currentTime width"

definition labelTime :: "real \<Rightarrow> real \<Rightarrow> nat \<Rightarrow> real" where
  "labelTime timeWindow currentTime i =
     currentTime - (timeWindow / 1000 - of_nat i * (timeWindow / 5000)) * 1000"

definition majorTick :: "(int \<Rightarrow> int) \<Rightarrow> real \<Rightarrow> real \<Rightarrow> real \<Rightarrow> nat \<Rightarrow> cmd list" where
  "majorTick tza timeWindow currentTime width i =
     (if tickX currentTime width i \<ge> 0 \<and> tickX currentTime width i \<le> width
      then [BeginPath, MoveTo (tickX currentTime width i) 0,
            LineTo (tickX currentTime width i) 6, Stroke,
            FillText (timeStr tza (newDate (labelTime timeWindow currentTime i)))
              (tickX currentTime width i) 20]
      else [])"

text \<open>\<^verbatim>\<open>for (let i = 0; i < 7; i++)\<close>: the seven bodies in order.\<close>

definition majorTicks :: "(int \<Rightarrow> int) \<Rightarrow> real \<Rightarrow> real \<Rightarrow> real \<Rightarrow> cmd list" where
  "majorTicks tza timeWindow currentTime width =
     concat (map (majorTick tza timeWindow currentTime width) [0..<7])"

definition badges :: "(int \<Rightarrow> int) \<Rightarrow> real \<Rightarrow> real \<Rightarrow> real \<Rightarrow> cmd list" where
  "badges tza timeWindow currentTime width =
     [FillStyle ''#333'', Font ''bold 13px Arial'',
      TextAlign ''left'', FillRect 0 0 2 10,
      FillText (''['' @ timeStr tza (newDate (currentTime - timeWindow))) 4 20,
      TextAlign ''right'', FillRect (width - 2) 0 2 10,
      FillText (timeStr tza (newDate currentTime) @ '']'') (width - 4) 20,
      FillStyle ''rgba(0, 0, 0, 0.05)'',
      FillRect 0 0 80 25, FillRect (width - 80) 0 80 25]"

text \<open>
  \<^verbatim>\<open>drawTimeAxis(ctx, currentTime, width, height)\<close>; \<open>timeWindow\<close>, \<open>showXSubScale\<close>
  and \<open>xScaleDensity\<close> are the state the closure reads. The result is the list of calls
  made on \<open>ctx\<close>, or \<open>None\<close> when the sub-tick loop does not end.
\<close>

definition drawTimeAxis ::
  "(int \<Rightarrow> int) \<Rightarrow> real \<Rightarrow> bool \<Rightarrow> int \<Rightarrow> real \<Rightarrow> real \<Rightarrow> real \<Rightarrow> cmd list option" where
  "drawTimeAxis tza timeWindow showXSubScale xScaleDensity currentTime width height =
     map_option
       (\<lambda>sub.
          [ClearRect 0 0 width height,
           BeginPath, StrokeStyle ''#333'', LineWidth 1, MoveTo 0 0, LineTo width 0, Stroke]
          @ sub
          @ [Font ''12px Arial'', FillStyle ''#666'', TextAlign ''center'']
          @ majorTicks tza timeWindow currentTime width
          @ badges tza timeWindow currentTime width)
       (subScale showXSubScale xScaleDensity currentTime width)"

text \<open>
  What a list of calls shows: the texts drawn with their positions, and the end points
  \<open>x\<close> of the calls \<^verbatim>\<open>lineTo(x, h)\<close> (\<open>h = 3\<close> for a sub-tick, \<open>h = 6\<close> for a major tick).
\<close>

definition texts :: "cmd list \<Rightarrow> (string \<times> real \<times> real) list" where
  "texts cs = concat (map (\<lambda>c. case c of FillText s x y \<Rightarrow> [(s, x, y)] | _ \<Rightarrow> []) cs)"

definition lineEnds :: "real \<Rightarrow> cmd list \<Rightarrow> real list" where
  "lineEnds h cs =
     concat (map (\<lambda>c. case c of LineTo x y \<Rightarrow> if y = h then [x] else [] | _ \<Rightarrow> []) cs)"

text \<open>The time zone of the examples: UTC.\<close>

definition utc :: "int \<Rightarrow> int" where
  "utc t = 0"

section \<open>The density text inputs (Control Panel)\<close>

text \<open>
  A JavaScript string is a sequence of UTF-16 code units; a code unit is modelled as the
  natural number below \<open>65536\<close> that it is. \<open>utf16\<close> gives the code units of a literal
  written in ASCII.
\<close>

type_synonym jsstring = "nat list"

definition utf16 :: "string \<Rightarrow> jsstring" where
  "utf16 s = map of_char s"

text \<open>
  \<^verbatim>\<open>parseInt(value)\<close> with no radix, as ECMAScript defines it: leading white space
  and line terminators are dropped, one sign is read, a \<^verbatim>\<open>0x\<close>/\<^verbatim>\<open>0X\<close> prefix selects
  radix 16 (radix 10 otherwise), and the longest prefix of digits of that radix is the
  result; with no such digit the result is NaN, which is \<open>None\<close> here. The integer is
  kept exact (the handlers only compare it with 0 and 6, and a number too large for
  binary64 compares as its exact value does).

  The code units dropped are those of ECMAScript's \<^verbatim>\<open>WhiteSpace\<close> and
  \<^verbatim>\<open>LineTerminator\<close>: TAB, LF, VT, FF, CR, SPACE, NO-BREAK SPACE (160), the other
  space separators U+1680, U+2000 to U+200A, U+202F, U+205F and U+3000, the separators
  U+2028 and U+2029, and U+FEFF.
\<close>

definition isWhiteSpace :: "nat \<Rightarrow> bool" where
  "isWhiteSpace c =
     (c = 9 \<or> c = 10 \<or> c = 11 \<or> c = 12 \<or> c = 13 \<or> c = 32 \<or> c = 160 \<or> c = 5760 \<or>
      (8192 \<le> c \<and> c \<le> 8202) \<or> c = 8232 \<or> c = 8233 \<or> c = 8239 \<or> c = 8287 \<or>
      c = 12288 \<or> c = 65279)"

definition digitValue :: "nat \<Rightarrow> nat" where
  "digitValue c =
     (if 48 \<le> c \<and> c \<le> 57 then c - 48
      else if 97 \<le> c \<and> c \<le> 122 then c - 87
      else if 65 \<le> c \<and> c \<le> 90 then c - 55
      else 36)"

definition isRadixDigit :: "nat \<Rightarrow> nat \<Rightarrow> bool" where
  "isRadixDigit R c = (digitValue c < R)"

definition mathInt :: "nat \<Rightarrow> jsstring \<Rightarrow> nat" where
  "mathInt R Z = foldl (\<lambda>acc c. acc * R + digitValue c) 0 Z"

definition parseInt :: "jsstring \<Rightarrow> int option" where
  "parseInt inputString =
     (let S0 = dropWhile isWhiteSpace inputString;
          sign = (if S0 \<noteq> [] \<and> hd S0 = 45 then - 1 else 1 :: int);
          S1 = (if S0 \<noteq> [] \<and> (hd S0 = 43 \<or> hd S0 = 45) then tl S0 else S0);
          hex = (take 2 S1 = [48, 120] \<or> take 2 S1 = [48, 88]);
          R = (if hex then 16 else 10);
          S2 = (if hex then drop 2 S1 else S1);
          Z = takeWhile (isRadixDigit R) S2
      in if Z = [] then None else Some (sign * int (mathInt R Z)))"

text \<open>
  \<^verbatim>\<open>handleDensityChange(value, setter)\<close>. The second argument of the model is the
  committed density before the event; the result is the committed density after it
  (unchanged where the source does not call \<^verbatim>\<open>setter\<close>).
\<close>

definition handleDensityChange :: "jsstring \<Rightarrow> int \<Rightarrow> int" where
  "handleDensityChange value density =
     (if value = [] then 0
      else case parseInt value of
             None \<Rightarrow> density
           | Some num \<Rightarrow> (let validNum = max 0 (min 6 num) in validNum))"

text \<open>
  The \<^verbatim>\<open>onBlur\<close> handler of a density input; \<open>targetValue\<close> is \<^verbatim>\<open>e.target.value\<close>
  and \<open>density\<close> the committed density before the event. The handler calls the setter
  with 0 when the text is not a number or is negative, with 6 when it is above 6, and
  does not call it otherwise.
\<close>

definition onBlur :: "jsstring \<Rightarrow> int \<Rightarrow> int" where
  "onBlur targetValue density =
     (case parseInt targetValue of
        None \<Rightarrow> 0
      | Some num \<Rightarrow> if num < 0 then 0 else if num > 6 then 6 else density)"

section \<open>The frame: \<^verbatim>\<open>updateFrame\<close>\<close>

definition Y_AXIS_MAX :: real where
  "Y_AXIS_MAX = 10"

definition Y_AXIS_MIN :: real where
  "Y_AXIS_MIN = - 10"

definition elapsedTime :: "real \<Rightarrow> real \<Rightarrow> real" where
  "elapsedTime currentTime startTime = (currentTime - startTime) / 1000"

text \<open>The value \<^verbatim>\<open>y\<close> of the source, with \<open>phase\<close> the elapsed time, and its clamp.\<close>

definition signal :: "real \<Rightarrow> real \<Rightarrow> real \<Rightarrow> real" where
  "signal amplitude phase t = amplitude * sin (2 * pi * (t + phase) / 2)"

definition clampY :: "real \<Rightarrow> real" where
  "clampY y = max Y_AXIS_MIN (min Y_AXIS_MAX y)"

text \<open>The body of the sample loop at the offset \<open>t\<close>: what it pushes on \<^verbatim>\<open>newData\<close>.\<close>

definition sampleAt :: "real \<Rightarrow> real \<Rightarrow> real \<Rightarrow> real \<Rightarrow> (real \<times> real) list" where
  "sampleAt currentTime startTime amplitude t =
     (if t \<ge> - elapsedTime currentTime startTime
      then [(currentTime + t * 1000,
             clampY (signal amplitude (elapsedTime currentTime startTime) t))]
      else [])"

text \<open>
  \<^verbatim>\<open>for (let t = -timeWindow/1000; t <= 0; t += 0.02)\<close>, from the offset \<open>t\<close> on. The
  sums of this section are exact; \<open>sampleLoop64\<close> in the section on binary64 is the loop
  with every operation rounded, and the number of samples and the values of \<open>t\<close> are
  settled there.
\<close>

function sampleLoop ::
  "real \<Rightarrow> real \<Rightarrow> real \<Rightarrow> real \<Rightarrow> (real \<times> real) list \<Rightarrow> (real \<times> real) list" where
  "sampleLoop currentTime startTime amplitude t newData =
     (if t \<le> 0
      then sampleLoop currentTime startTime amplitude (t + 0.02)
             (newData @ sampleAt currentTime startTime amplitude t)
      else newData)"
  by pat_completeness auto
termination
proof (relation "measure (\<lambda>(currentTime, startTime, amplitude, t, newData). nat \<lceil>1 - 50 * t\<rceil>)")
  show "wf (measure (\<lambda>(currentTime :: real, startTime :: real, amplitude :: real, t :: real,
                       newData :: (real \<times> real) list). nat \<lceil>1 - 50 * t\<rceil>))"
    by simp
next
  fix currentTime startTime amplitude t :: real and newData :: "(real \<times> real) list"
  assume "t \<le> 0"
  then have "\<lceil>1 - 50 * (t + 0.02)\<rceil> = \<lceil>1 - 50 * t\<rceil> - 1" and "0 < \<lceil>1 - 50 * t\<rceil>"
    by (simp_all add: algebra_simps) linarith+
  then show "((currentTime, startTime, amplitude, t + 0.02,
               newData @ sampleAt currentTime startTime amplitude t),
              (currentTime, startTime, amplitude, t, newData))
             \<in> measure (\<lambda>(currentTime, startTime, amplitude, t, newData). nat \<lceil>1 - 50 * t\<rceil>)"
    by simp
qed

declare sampleLoop.simps [simp del]

definition generate :: "real \<Rightarrow> real \<Rightarrow> real \<Rightarrow> real \<Rightarrow> (real \<times> real) list" where
  "generate currentTime startTime timeWindow amplitude =
     sampleLoop currentTime startTime amplitude (- timeWindow / 1000) []"

text \<open>The argument of \<^verbatim>\<open>chartInstanceRef.current.setOption\<close> in a frame.\<close>

record chart_option =
  xAxis_min :: real
  xAxis_max :: real
  yAxis_min :: real
  yAxis_max :: real
  series_data :: "(real \<times> real) list"

text \<open>
  What one call of \<^verbatim>\<open>updateFrame\<close> does: the new \<^verbatim>\<open>dataRef.current\<close>, the option
  given to the chart and the calls made on the canvas.
\<close>

record frame =
  dataRef_current :: "(real \<times> real) list"
  setOption :: chart_option
  overlay :: "cmd list"

text \<open>
  \<^verbatim>\<open>updateFrame\<close>. \<open>currentTime\<close> is the value of its one call of \<^verbatim>\<open>Date.now()\<close>;
  \<open>cssWidth\<close> and \<open>cssHeight\<close> are \<^verbatim>\<open>canvas.width / window.devicePixelRatio\<close> and
  \<^verbatim>\<open>canvas.height / window.devicePixelRatio\<close>. Both guards of the source hold whenever
  it runs: the effect sets \<^verbatim>\<open>chartInstanceRef.current\<close> before it schedules the first
  frame, and it runs only if \<^verbatim>\<open>canvas\<close> and \<^verbatim>\<open>ctx\<close> exist. The result is \<open>None\<close> when
  \<^verbatim>\<open>drawTimeAxis\<close> does not return.
\<close>

definition updateFrame ::
  "(int \<Rightarrow> int) \<Rightarrow> real \<Rightarrow> real \<Rightarrow> bool \<Rightarrow> int \<Rightarrow> real \<Rightarrow> real \<Rightarrow> real \<Rightarrow> real \<Rightarrow> frame option"
where
  "updateFrame tza timeWindow amplitude showXSubScale xScaleDensity startTime
               cssWidth cssHeight currentTime =
     map_option
       (\<lambda>cmds.
          \<lparr>dataRef_current = generate currentTime startTime timeWindow amplitude,
           setOption =
             \<lparr>xAxis_min = currentTime - timeWindow, xAxis_max = currentTime,
              yAxis_min = Y_AXIS_MIN, yAxis_max = Y_AXIS_MAX,
              series_data = generate currentTime startTime timeWindow amplitude\<rparr>,
           overlay = cmds\<rparr>)
       (drawTimeAxis tza timeWindow showXSubScale xScaleDensity currentTime cssWidth cssHeight)"

text \<open>
  The signal generation without the clamp: the comparison the spec's claim about the
  clamp needs.
\<close>

definition sampleAt_unclamped :: "real \<Rightarrow> real \<Rightarrow> real \<Rightarrow> real \<Rightarrow> (real \<times> real) list" where
  "sampleAt_unclamped currentTime startTime amplitude t =
     (if t \<ge> - elapsedTime currentTime startTime
      then [(currentTime + t * 1000, signal amplitude (elapsedTime currentTime startTime) t)]
      else [])"

function sampleLoop_unclamped ::
  "real \<Rightarrow> real \<Rightarrow> real \<Rightarrow> real \<Rightarrow> (real \<times> real) list \<Rightarrow> (real \<times> real) list" where
  "sampleLoop_unclamped currentTime startTime amplitude t newData =
     (if t \<le> 0
      then sampleLoop_unclamped currentTime startTime amplitude (t + 0.02)
             (newData @ sampleAt_unclamped currentTime startTime amplitude t)
      else newData)"
  by pat_completeness auto
termination
proof (relation "measure (\<lambda>(currentTime, startTime, amplitude, t, newData). nat \<lceil>1 - 50 * t\<rceil>)")
  show "wf (measure (\<lambda>(currentTime :: real, startTime :: real, amplitude :: real, t :: real,
                       newData :: (real \<times> real) list). nat \<lceil>1 - 50 * t\<rceil>))"
    by simp
next
  fix currentTime startTime amplitude t :: real and newData :: "(real \<times> real) list"
  assume "t \<le> 0"
  then have "\<lceil>1 - 50 * (t + 0.02)\<rceil> = \<lceil>1 - 50 * t\<rceil> - 1" and "0 < \<lceil>1 - 50 * t\<rceil>"
    by (simp_all add: algebra_simps) linarith+
  then show "((currentTime, startTime, amplitude, t + 0.02,
               newData @ sampleAt_unclamped currentTime startTime amplitude t),
              (currentTime, startTime, amplitude, t, newData))
             \<in> measure (\<lambda>(currentTime, startTime, amplitude, t, newData). nat \<lceil>1 - 50 * t\<rceil>)"
    by simp
qed

declare sampleLoop_unclamped.simps [simp del]

definition generate_unclamped :: "real \<Rightarrow> real \<Rightarrow> real \<Rightarrow> real \<Rightarrow> (real \<times> real) list" where
  "generate_unclamped currentTime startTime timeWindow amplitude =
     sampleLoop_unclamped currentTime startTime amplitude (- timeWindow / 1000) []"


text \<open>
  The offsets the spec names: from \<open>- timeWindow / 1000\<close> up to 0 in steps of 0.02. This
  list is written from the spec's words; the loop above is compared with it.
\<close>

definition offsets :: "real \<Rightarrow> real list" where
  "offsets timeWindow =
     map (\<lambda>k. - timeWindow / 1000 + of_nat k * 0.02)
       [0..<(if 0 \<le> timeWindow then nat \<lfloor>timeWindow / 20\<rfloor> + 1 else 0)]"

section \<open>The life cycle of the component\<close>

text \<open>
  React's \<^verbatim>\<open>useRef(initialValue)\<close>: the hook keeps one ref cell per component; the first
  render stores \<open>initialValue\<close> in it, every later render returns the stored cell and
  ignores its argument. \<open>stored\<close> is the cell before the render (\<open>None\<close> on the first).
\<close>

definition useRef :: "'a option \<Rightarrow> 'a \<Rightarrow> 'a" where
  "useRef stored initialValue = (case stored of None \<Rightarrow> initialValue | Some current \<Rightarrow> current)"

text \<open>
  The state of \<^verbatim>\<open>App\<close>: the six \<^verbatim>\<open>useState\<close> values, the cell of the ref
  \<^verbatim>\<open>startTime\<close>, \<^verbatim>\<open>dataRef.current\<close>, the horizontal range of the live chart instance
  (\<open>None\<close> when there is none), the number of calls of \<^verbatim>\<open>echarts.init\<close> so far, and
  whether a frame is scheduled.
\<close>

record app =
  s_timeWindow :: real
  s_amplitude :: real
  s_showXSubScale :: bool
  s_showYSubScale :: bool
  s_xScaleDensity :: int
  s_yScaleDensity :: int
  startTime_ref :: "real option"
  dataRef :: "(real \<times> real) list"
  chart_xAxis :: "(real \<times> real) option"
  chart_inits :: nat
  frame_scheduled :: bool

definition unmounted :: app where
  "unmounted =
     \<lparr>s_timeWindow = 10000, s_amplitude = 10, s_showXSubScale = False,
      s_showYSubScale = False, s_xScaleDensity = 3, s_yScaleDensity = 3,
      startTime_ref = None, dataRef = [], chart_xAxis = None, chart_inits = 0,
      frame_scheduled = False\<rparr>"

text \<open>
  A render of \<^verbatim>\<open>App\<close> at the clock value \<open>now\<close>: the body evaluates
  \<^verbatim>\<open>useRef(Date.now())\<close>; nothing else in it writes the state.
\<close>

definition render :: "real \<Rightarrow> app \<Rightarrow> app" where
  "render now a = a\<lparr>startTime_ref := Some (useRef (startTime_ref a) now)\<rparr>"

text \<open>
  The body of the effect (the initialization of the pipeline): \<^verbatim>\<open>echarts.init\<close>, the
  first \<^verbatim>\<open>setOption\<close> with the range \<^verbatim>\<open>[startTime.current - timeWindow,
  startTime.current]\<close>, and \<^verbatim>\<open>requestAnimationFrame(updateFrame)\<close>. Its clean-up cancels
  the frame and disposes of the chart.
\<close>

definition effectSetup :: "app \<Rightarrow> app" where
  "effectSetup a =
     (case startTime_ref a of
        None \<Rightarrow> a
      | Some current \<Rightarrow>
          a\<lparr>chart_xAxis := Some (current - s_timeWindow a, current),
            chart_inits := Suc (chart_inits a),
            frame_scheduled := True\<rparr>)"

definition effectCleanup :: "app \<Rightarrow> app" where
  "effectCleanup a = a\<lparr>chart_xAxis := None, frame_scheduled := False\<rparr>"

definition mount :: "real \<Rightarrow> app" where
  "mount now = effectSetup (render now unmounted)"

text \<open>
  A state setter was called at the clock value \<open>now\<close> and left the state \<open>a'\<close>, where
  \<open>a\<close> was the state before. React renders again only if a value changed; all six
  values are dependencies of the effect, so the clean-up and the effect then run again.
\<close>

definition rerender :: "real \<Rightarrow> app \<Rightarrow> app \<Rightarrow> app" where
  "rerender now a a' =
     (if a' = a then a else effectSetup (effectCleanup (render now a')))"

datatype event =
    SetTimeWindow real
  | SetAmplitude real
  | SetShowXSubScale bool
  | SetShowYSubScale bool
  | ChangeXDensity jsstring
  | ChangeYDensity jsstring
  | BlurXDensity jsstring
  | BlurYDensity jsstring
  | AnimationFrame
  | Resize

text \<open>
  One event at the clock value \<open>now\<close>; \<open>tza\<close>, \<open>cssWidth\<close> and \<open>cssHeight\<close> are the
  host's time zone and the size of the canvas. A frame that is not scheduled does not
  run; a resize changes no state of the component. \<open>None\<close>: the handler does not return.
\<close>

fun handle :: "(int \<Rightarrow> int) \<Rightarrow> real \<Rightarrow> real \<Rightarrow> real \<Rightarrow> event \<Rightarrow> app \<Rightarrow> app option" where
  "handle tza cssWidth cssHeight now (SetTimeWindow v) a =
     Some (rerender now a (a\<lparr>s_timeWindow := v\<rparr>))"
| "handle tza cssWidth cssHeight now (SetAmplitude v) a =
     Some (rerender now a (a\<lparr>s_amplitude := v\<rparr>))"
| "handle tza cssWidth cssHeight now (SetShowXSubScale b) a =
     Some (rerender now a (a\<lparr>s_showXSubScale := b\<rparr>))"
| "handle tza cssWidth cssHeight now (SetShowYSubScale b) a =
     Some (rerender now a (a\<lparr>s_showYSubScale := b\<rparr>))"
| "handle tza cssWidth cssHeight now (ChangeXDensity v) a =
     Some (rerender now a (a\<lparr>s_xScaleDensity := handleDensityChange v (s_xScaleDensity a)\<rparr>))"
| "handle tza cssWidth cssHeight now (ChangeYDensity v) a =
     Some (rerender now a (a\<lparr>s_yScaleDensity := handleDensityChange v (s_yScaleDensity a)\<rparr>))"
| "handle tza cssWidth cssHeight now (BlurXDensity v) a =
     Some (rerender now a (a\<lparr>s_xScaleDensity := onBlur v (s_xScaleDensity a)\<rparr>))"
| "handle tza cssWidth cssHeight now (BlurYDensity v) a =
     Some (rerender now a (a\<lparr>s_yScaleDensity := onBlur v (s_yScaleDensity a)\<rparr>))"
| "handle tza cssWidth cssHeight now AnimationFrame a =
     (case startTime_ref a of
        None \<Rightarrow> Some a
      | Some current \<Rightarrow>
          if frame_scheduled a
          then map_option
                 (\<lambda>f. a\<lparr>dataRef := dataRef_current f,
                        chart_xAxis := Some (xAxis_min (setOption f), xAxis_max (setOption f))\<rparr>)
                 (updateFrame tza (s_timeWindow a) (s_amplitude a) (s_showXSubScale a)
                    (s_xScaleDensity a) current cssWidth cssHeight now)
          else Some a)"
| "handle tza cssWidth cssHeight now Resize a = Some a"

text \<open>A sequence of events, each with the clock value at which it happens.\<close>

fun run :: "(int \<Rightarrow> int) \<Rightarrow> real \<Rightarrow> real \<Rightarrow> (real \<times> event) list \<Rightarrow> app \<Rightarrow> app option" where
  "run tza cssWidth cssHeight [] a = Some a"
| "run tza cssWidth cssHeight ((now, ev) # evs) a =
     (case handle tza cssWidth cssHeight now ev a of
        None \<Rightarrow> None
      | Some a' \<Rightarrow> run tza cssWidth cssHeight evs a')"


section \<open>Binary64 arithmetic\<close>

text \<open>
  The arithmetic of IEEE 754 binary64, which JavaScript numbers have: every result is
  the exact result rounded to the nearest number with a 53-bit significand (ties to the
  even significand; gradual underflow below \<open>2^-1022\<close>; an infinity from \<open>2^1024\<close> on).
  A finite binary64 number is the real number it denotes; the two zeros are not told
  apart (no result of the source depends on the sign of a zero: the only divisor that
  can be zero is a density, which is the positive zero).
\<close>

definition pow2 :: "int \<Rightarrow> real" where
  "pow2 e = (if 0 \<le> e then 2 ^ nat e else 1 / 2 ^ nat (- e))"

definition roundEven :: "real \<Rightarrow> int" where
  "roundEven x =
     (if x - of_int \<lfloor>x\<rfloor> < 1 / 2 then \<lfloor>x\<rfloor>
      else if x - of_int \<lfloor>x\<rfloor> > 1 / 2 then \<lfloor>x\<rfloor> + 1
      else if even \<lfloor>x\<rfloor> then \<lfloor>x\<rfloor> else \<lfloor>x\<rfloor> + 1)"

text \<open>\<open>expoUp n\<close> is the \<open>e\<close> with \<open>2^e \<le> n < 2^(e+1)\<close>, for \<open>n \<ge> 1\<close>.\<close>

fun expoUp :: "nat \<Rightarrow> int" where
  "expoUp n = (if n < 2 then 0 else 1 + expoUp (n div 2))"

declare expoUp.simps [simp del]

text \<open>\<open>expo a\<close> is the \<open>e\<close> with \<open>2^e \<le> a < 2^(e+1)\<close>, for \<open>a > 0\<close>.\<close>

definition expo :: "real \<Rightarrow> int" where
  "expo a =
     (if 1 \<le> a then expoUp (nat \<lfloor>a\<rfloor>)
      else - 1 - expoUp (nat (\<lceil>1 / a\<rceil> - 1)))"

text \<open>\<open>a \<ge> 0\<close> rounded to a multiple of \<open>2^e\<close>.\<close>

definition quantize :: "int \<Rightarrow> real \<Rightarrow> real" where
  "quantize e a = of_int (roundEven (a / pow2 e)) * pow2 e"

definition round64 :: "real \<Rightarrow> number" where
  "round64 x =
     (if x = 0 then Fin 0
      else if quantize (max (expo \<bar>x\<bar> - 52) (- 1074)) \<bar>x\<bar> \<ge> pow2 1024
           then (if x > 0 then PInf else NInf)
      else Fin (sgn x * quantize (max (expo \<bar>x\<bar> - 52) (- 1074)) \<bar>x\<bar>))"

text \<open>\<^verbatim>\<open>x + y\<close>, \<^verbatim>\<open>-x\<close>, \<^verbatim>\<open>x - y\<close>, \<^verbatim>\<open>x * y\<close> and \<^verbatim>\<open>x / y\<close>.\<close>

fun fadd64 :: "number \<Rightarrow> number \<Rightarrow> number" where
  "fadd64 (Fin x) (Fin y) = round64 (x + y)"
| "fadd64 NaN _ = NaN"
| "fadd64 _ NaN = NaN"
| "fadd64 PInf NInf = NaN"
| "fadd64 NInf PInf = NaN"
| "fadd64 PInf _ = PInf"
| "fadd64 _ PInf = PInf"
| "fadd64 NInf _ = NInf"
| "fadd64 _ NInf = NInf"

fun fneg :: "number \<Rightarrow> number" where
  "fneg (Fin x) = Fin (- x)"
| "fneg PInf = NInf"
| "fneg NInf = PInf"
| "fneg NaN = NaN"

definition fsub64 :: "number \<Rightarrow> number \<Rightarrow> number" where
  "fsub64 x y = fadd64 x (fneg y)"

fun fmul64 :: "number \<Rightarrow> number \<Rightarrow> number" where
  "fmul64 (Fin x) (Fin y) = round64 (x * y)"
| "fmul64 NaN _ = NaN"
| "fmul64 _ NaN = NaN"
| "fmul64 PInf (Fin y) = (if y > 0 then PInf else if y < 0 then NInf else NaN)"
| "fmul64 NInf (Fin y) = (if y > 0 then NInf else if y < 0 then PInf else NaN)"
| "fmul64 (Fin x) PInf = (if x > 0 then PInf else if x < 0 then NInf else NaN)"
| "fmul64 (Fin x) NInf = (if x > 0 then NInf else if x < 0 then PInf else NaN)"
| "fmul64 PInf PInf = PInf"
| "fmul64 NInf NInf = PInf"
| "fmul64 PInf NInf = NInf"
| "fmul64 NInf PInf = NInf"

fun fdiv64 :: "number \<Rightarrow> number \<Rightarrow> number" where
  "fdiv64 (Fin x) (Fin y) =
     (if y \<noteq> 0 then round64 (x / y)
      else if x > 0 then PInf else if x < 0 then NInf else NaN)"
| "fdiv64 NaN _ = NaN"
| "fdiv64 _ NaN = NaN"
| "fdiv64 (Fin x) PInf = Fin 0"
| "fdiv64 (Fin x) NInf = Fin 0"
| "fdiv64 PInf (Fin y) = (if y \<ge> 0 then PInf else NInf)"
| "fdiv64 NInf (Fin y) = (if y \<ge> 0 then NInf else PInf)"
| "fdiv64 PInf PInf = NaN"
| "fdiv64 PInf NInf = NaN"
| "fdiv64 NInf PInf = NaN"
| "fdiv64 NInf NInf = NaN"

text \<open>\<^verbatim>\<open>x <= y\<close> and \<^verbatim>\<open>x < y\<close>: false when either side is NaN.\<close>

fun nle :: "number \<Rightarrow> number \<Rightarrow> bool" where
  "nle (Fin x) (Fin y) = (x \<le> y)"
| "nle NaN _ = False"
| "nle _ NaN = False"
| "nle NInf _ = True"
| "nle _ PInf = True"
| "nle _ NInf = False"
| "nle PInf _ = False"


text \<open>
  \<^verbatim>\<open>Math.max\<close> and \<^verbatim>\<open>Math.min\<close> of two numbers (NaN when either is NaN), the constant
  \<^verbatim>\<open>Math.PI\<close> (the binary64 number nearest to \<open>\<pi>\<close>), and \<^verbatim>\<open>Math.sin\<close>. ECMAScript
  leaves the sine of a finite number to the host (an implementation-approximated
  value), so the host's function \<open>msin\<close> on the finite numbers is a parameter; the sine of
  an infinity or of NaN is NaN.
\<close>

fun Math_max :: "number \<Rightarrow> number \<Rightarrow> number" where
  "Math_max NaN _ = NaN"
| "Math_max _ NaN = NaN"
| "Math_max x y = (if nle x y then y else x)"

fun Math_min :: "number \<Rightarrow> number \<Rightarrow> number" where
  "Math_min NaN _ = NaN"
| "Math_min _ NaN = NaN"
| "Math_min x y = (if nle x y then x else y)"

definition Math_PI :: real where
  "Math_PI = 884279719003555 / 281474976710656"

fun Math_sin :: "(real \<Rightarrow> real) \<Rightarrow> number \<Rightarrow> number" where
  "Math_sin msin (Fin x) = Fin (msin x)"
| "Math_sin msin PInf = NaN"
| "Math_sin msin NInf = NaN"
| "Math_sin msin NaN = NaN"

section \<open>The sample loop of \<^verbatim>\<open>updateFrame\<close> in binary64\<close>

text \<open>
  The loop of \<^verbatim>\<open>updateFrame\<close> with every operation rounded, for finite \<open>currentTime\<close>,
  \<open>startTime\<close>, \<open>timeWindow\<close> and \<open>amplitude\<close>. The literal \<^verbatim>\<open>0.02\<close> is the binary64
  number nearest to \<open>2 / 100\<close>. A sample is a pair of numbers.
\<close>

definition elapsedTime64 :: "real \<Rightarrow> real \<Rightarrow> number" where
  "elapsedTime64 currentTime startTime =
     fdiv64 (fsub64 (Fin currentTime) (Fin startTime)) (Fin 1000)"

text \<open>\<^verbatim>\<open>amplitude * Math.sin(2 * Math.PI * (t + phase) / 2)\<close> and the clamp.\<close>

definition signal64 :: "(real \<Rightarrow> real) \<Rightarrow> real \<Rightarrow> number \<Rightarrow> number \<Rightarrow> number" where
  "signal64 msin amplitude phase t =
     fmul64 (Fin amplitude)
       (Math_sin msin
          (fdiv64 (fmul64 (fmul64 (Fin 2) (Fin Math_PI)) (fadd64 t phase)) (Fin 2)))"

definition clampY64 :: "number \<Rightarrow> number" where
  "clampY64 y = Math_max (Fin Y_AXIS_MIN) (Math_min (Fin Y_AXIS_MAX) y)"

text \<open>The sample that the body of the loop computes at \<open>t\<close>, and what the body pushes.\<close>

definition sample64 ::
  "(real \<Rightarrow> real) \<Rightarrow> real \<Rightarrow> real \<Rightarrow> real \<Rightarrow> number \<Rightarrow> number \<times> number" where
  "sample64 msin currentTime startTime amplitude t =
     (fadd64 (Fin currentTime) (fmul64 t (Fin 1000)),
      clampY64 (signal64 msin amplitude (elapsedTime64 currentTime startTime) t))"

definition sampleAt64 ::
  "(real \<Rightarrow> real) \<Rightarrow> real \<Rightarrow> real \<Rightarrow> real \<Rightarrow> number \<Rightarrow> (number \<times> number) list" where
  "sampleAt64 msin currentTime startTime amplitude t =
     (if nle (fneg (elapsedTime64 currentTime startTime)) t
      then [sample64 msin currentTime startTime amplitude t]
      else [])"

text \<open>
  \<^verbatim>\<open>for (let t = -timeWindow/1000; t <= 0; t += 0.02)\<close>, from \<open>t\<close> on. The additions can
  stop changing \<open>t\<close> (a \<open>t\<close> below \<open>-2^51\<close>), so the loop need not end: \<open>None\<close> is a loop
  that never returns.
\<close>

partial_function (option)
  sampleLoop64 ::
    "(real \<Rightarrow> real) \<Rightarrow> real \<Rightarrow> real \<Rightarrow> real \<Rightarrow> number \<Rightarrow> (number \<times> number) list \<Rightarrow>
     (number \<times> number) list option"
where
  "sampleLoop64 msin currentTime startTime amplitude t newData =
     (if nle t (Fin 0)
      then sampleLoop64 msin currentTime startTime amplitude (fadd64 t (round64 (2 / 100)))
             (newData @ sampleAt64 msin currentTime startTime amplitude t)
      else Some newData)"

definition generate64 ::
  "(real \<Rightarrow> real) \<Rightarrow> real \<Rightarrow> real \<Rightarrow> real \<Rightarrow> real \<Rightarrow> (number \<times> number) list option" where
  "generate64 msin currentTime startTime timeWindow amplitude =
     sampleLoop64 msin currentTime startTime amplitude
       (fdiv64 (fneg (Fin timeWindow)) (Fin 1000)) []"

text \<open>
  The values of \<open>t\<close> at which the body of the loop runs, with a bound on the number of
  iterations: the form in which the loop is evaluated. \<open>progression t D n\<close> is the list of
  the \<open>n\<close> numbers \<open>t, t + D, t + 2 D, \<dots>\<close>.
\<close>

fun visited64 :: "nat \<Rightarrow> number \<Rightarrow> number list option" where
  "visited64 0 t = None"
| "visited64 (Suc fuel) t =
     (if nle t (Fin 0)
      then map_option ((#) t) (visited64 fuel (fadd64 t (round64 (2 / 100))))
      else Some [])"

definition progression :: "real \<Rightarrow> real \<Rightarrow> nat \<Rightarrow> number list" where
  "progression t D n = map (\<lambda>i. Fin (t + of_nat i * D)) [0..<n]"

text \<open>The signal generation in binary64 without the clamp, for the comparison.\<close>

definition sampleAt64_unclamped ::
  "(real \<Rightarrow> real) \<Rightarrow> real \<Rightarrow> real \<Rightarrow> real \<Rightarrow> number \<Rightarrow> (number \<times> number) list" where
  "sampleAt64_unclamped msin currentTime startTime amplitude t =
     (if nle (fneg (elapsedTime64 currentTime startTime)) t
      then [(fadd64 (Fin currentTime) (fmul64 t (Fin 1000)),
             signal64 msin amplitude (elapsedTime64 currentTime startTime) t)]
      else [])"

partial_function (option)
  sampleLoop64_unclamped ::
    "(real \<Rightarrow> real) \<Rightarrow> real \<Rightarrow> real \<Rightarrow> real \<Rightarrow> number \<Rightarrow> (number \<times> number) list \<Rightarrow>
     (number \<times> number) list option"
where
  "sampleLoop64_unclamped msin currentTime startTime amplitude t newData =
     (if nle t (Fin 0)
      then sampleLoop64_unclamped msin currentTime startTime amplitude
             (fadd64 t (round64 (2 / 100)))
             (newData @ sampleAt64_unclamped msin currentTime startTime amplitude t)
      else Some newData)"

definition generate64_unclamped ::
  "(real \<Rightarrow> real) \<Rightarrow> real \<Rightarrow> real \<Rightarrow> real \<Rightarrow> real \<Rightarrow> (number \<times> number) list option" where
  "generate64_unclamped msin currentTime startTime timeWindow amplitude =
     sampleLoop64_unclamped msin currentTime startTime amplitude
       (fdiv64 (fneg (Fin timeWindow)) (Fin 1000)) []"

section \<open>The sub-scale of \<^verbatim>\<open>drawTimeAxis\<close> in binary64\<close>




section \<open>Auxiliary lemmas\<close>

lemma parseInt_9: "parseInt (utf16 ''9'') = Some 9"
  by (simp add: parseInt_def utf16_def isWhiteSpace_def isRadixDigit_def digitValue_def
        mathInt_def)

lemma parseInt_minus3: "parseInt (utf16 ''-3'') = Some (- 3)"
  by (simp add: parseInt_def utf16_def isWhiteSpace_def isRadixDigit_def digitValue_def
        mathInt_def)

lemma parseInt_abc: "parseInt (utf16 ''abc'') = None"
  by (simp add: parseInt_def utf16_def isWhiteSpace_def isRadixDigit_def digitValue_def
        mathInt_def)

lemma parseInt_6: "parseInt (utf16 ''6'') = Some 6"
  by (simp add: parseInt_def utf16_def isWhiteSpace_def isRadixDigit_def digitValue_def
        mathInt_def)

lemma parseInt_0: "parseInt (utf16 ''0'') = Some 0"
  by (simp add: parseInt_def utf16_def isWhiteSpace_def isRadixDigit_def digitValue_def
        mathInt_def)

lemma parseInt_4: "parseInt (utf16 ''4'') = Some 4"
  by (simp add: parseInt_def utf16_def isWhiteSpace_def isRadixDigit_def digitValue_def
        mathInt_def)

lemma parseInt_nbsp_5: "parseInt (160 # utf16 ''5'') = Some 5"
  by (simp add: parseInt_def utf16_def isWhiteSpace_def isRadixDigit_def digitValue_def
        mathInt_def)

lemma utf16_nonempty: "utf16 (c # cs) \<noteq> []"
  by (simp add: utf16_def)

lemma parseInt_empty: "parseInt [] = None"
  by (simp add: parseInt_def)

lemma handleDensityChange_range:
  "0 \<le> d \<Longrightarrow> d \<le> 6 \<Longrightarrow>
   0 \<le> handleDensityChange v d \<and> handleDensityChange v d \<le> 6"
  by (simp add: handleDensityChange_def split: option.split)

lemma onBlur_range: "0 \<le> d \<Longrightarrow> d \<le> 6 \<Longrightarrow> 0 \<le> onBlur w d \<and> onBlur w d \<le> 6"
  by (simp add: onBlur_def split: option.split)

subsection \<open>The overlay\<close>

lemma texts_append: "texts (a @ b) = texts a @ texts b"
  by (simp add: texts_def)

lemma lineEnds_append: "lineEnds h (a @ b) = lineEnds h a @ lineEnds h b"
  by (simp add: lineEnds_def)

lemma texts_Nil: "texts [] = []"
  by (simp add: texts_def)

lemma lineEnds_Nil: "lineEnds h [] = []"
  by (simp add: lineEnds_def)

lemma texts_Cons: "texts (c # cs) = (case c of FillText s x y \<Rightarrow> [(s, x, y)] | _ \<Rightarrow> []) @ texts cs"
  by (simp add: texts_def)

lemma lineEnds_Cons:
  "lineEnds h (c # cs) = (case c of LineTo x y \<Rightarrow> if y = h then [x] else [] | _ \<Rightarrow> []) @ lineEnds h cs"
  by (simp add: lineEnds_def)

lemma texts_concat: "texts (concat xss) = concat (map texts xss)"
  by (induction xss) (simp_all add: texts_Nil texts_append)


lemma concat_map_if: "concat (map (\<lambda>i. if P i then [g i] else []) xs) = map g (filter P xs)"
  by (induction xs) simp_all

lemma subTickLoop_stop: "\<not> jlt i width \<Longrightarrow> subTickLoop width offset step i path = Some path"
  by (subst subTickLoop.simps) simp

lemma subTickLoop_step:
  "jlt i width \<Longrightarrow>
   subTickLoop width offset step i path =
   subTickLoop width offset step (jadd i step) (path @ subTick width (jsub i offset))"
  by (subst subTickLoop.simps) simp

lemma subTickLoop_fin:
  assumes "0 < s"
  shows "subTickLoop w off (Fin s) (Fin i) path =
         Some (path @ concat (map (\<lambda>k. subTick w (Fin (i + of_nat k * s - off)))
                               [0..<nat \<lceil>(w - i) / s\<rceil>]))"
proof (induction "nat \<lceil>(w - i) / s\<rceil>" arbitrary: i path)
  case 0
  then have "(w - i) / s \<le> 0" by linarith
  with assms have "w \<le> i" by (simp add: divide_le_0_iff)
  then have "\<not> jlt (Fin i) w" by simp
  with 0 show ?case by (simp add: subTickLoop_stop)
next
  case (Suc n)
  then have pos: "0 < (w - i) / s" by linarith
  with assms have lt: "i < w" by (simp add: zero_less_divide_iff)
  have "(w - (i + s)) / s = (w - i) / s - 1"
    using assms by (simp add: field_simps)
  then have n: "n = nat \<lceil>(w - (i + s)) / s\<rceil>"
    using Suc(2) by simp
  have up: "[0..<Suc n] = 0 # map Suc [0..<n]"
    by (simp add: upt_conv_Cons map_Suc_upt del: upt_Suc)
  have "subTickLoop w off (Fin s) (Fin i) path =
        subTickLoop w off (Fin s) (Fin (i + s)) (path @ subTick w (Fin (i - off)))"
    using lt by (simp add: subTickLoop_step)
  also have "\<dots> = Some ((path @ subTick w (Fin (i - off))) @
                concat (map (\<lambda>k. subTick w (Fin (i + s + of_nat k * s - off))) [0..<n]))"
    using Suc(1) [OF n] n by simp
  also have "\<dots> = Some (path @ concat (map (\<lambda>k. subTick w (Fin (i + of_nat k * s - off)))
                               [0..<Suc n]))"
    unfolding up by (simp add: o_def algebra_simps)
  finally show ?case using Suc(2) by simp
qed

lemma subTickLoop_density_pos:
  assumes "0 < width" and "1 \<le> d"
  shows "subTickLoop width off (jdiv width (of_int d)) (Fin 0) [] =
         Some (concat (map (\<lambda>k. subTick width (Fin (of_nat k * (width / of_int d) - off)))
                         [0..<nat d]))"
proof -
  have s: "0 < width / of_int d" using assms by simp
  have "(width - 0) / (width / of_int d) = of_int d" using assms by simp
  then have n: "nat \<lceil>(width - 0) / (width / of_int d)\<rceil> = nat d" by simp
  have "jdiv width (of_int d) = Fin (width / of_int d)"
    using assms by (simp add: jdiv_def)
  then show ?thesis
    using subTickLoop_fin [OF s, of width off 0 "[]"] n by simp
qed

lemma subTickLoop_density_zero:
  "subTickLoop width off (jdiv width 0) (Fin 0) path =
   Some (if 0 < width then path @ subTick width (Fin (- off)) else path)"
proof (cases "0 < width")
  case True
  then have "subTickLoop width off PInf (Fin 0) path =
             subTickLoop width off PInf PInf (path @ subTick width (Fin (- off)))"
    by (simp add: subTickLoop_step)
  also have "\<dots> = Some (path @ subTick width (Fin (- off)))"
    by (simp add: subTickLoop_stop)
  finally show ?thesis using True by (simp add: jdiv_def)
next
  case False
  then show ?thesis by (simp add: subTickLoop_stop)
qed

lemma subTickLoop_nonpos_width:
  "width \<le> 0 \<Longrightarrow> subTickLoop width off step (Fin 0) path = Some path"
  by (simp add: subTickLoop_stop)

lemma subTick_texts: "texts (subTick w x) = []"
  by (cases x) (simp_all add: subTick_def texts_Cons texts_Nil)

lemma subTick_lineEnds6: "lineEnds 6 (subTick w x) = []"
  by (cases x) (simp_all add: subTick_def lineEnds_Cons lineEnds_Nil)


lemma subTickLoop_keeps:
  assumes "subTickLoop w off step i path = Some r"
  shows "texts r = texts path \<and> lineEnds 6 r = lineEnds 6 path"
proof (rule subTickLoop.raw_induct
    [where P = "\<lambda>w off step i path r. texts r = texts path \<and> lineEnds 6 r = lineEnds 6 path",
     OF _ assms])
  fix f width offset step i path r
  assume IH: "\<And>width offset step i path r. f width offset step i path = Some r \<Longrightarrow>
                texts r = texts path \<and> lineEnds 6 r = lineEnds 6 path"
    and eq: "(if jlt i width
              then f width offset step (jadd i step) (path @ subTick width (jsub i offset))
              else Some path) = Some r"
  show "texts r = texts path \<and> lineEnds 6 r = lineEnds 6 path"
  proof (cases "jlt i width")
    case True
    with eq have "f width offset step (jadd i step) (path @ subTick width (jsub i offset)) = Some r"
      by simp
    from IH [OF this] show ?thesis
      by (simp add: texts_append lineEnds_append subTick_texts subTick_lineEnds6)
  next
    case False
    with eq show ?thesis by simp
  qed
qed

lemma subScale_keeps:
  assumes "subScale sx d now W = Some sub"
  shows "texts sub = [] \<and> lineEnds 6 sub = []"
proof (cases sx)
  case True
  with assms obtain path where
    p: "subTickLoop W (scrollOffset now W) (jdiv W (of_int d)) (Fin 0) [] = Some path"
    and sub: "sub = [BeginPath, StrokeStyle ''#999'', LineWidth 0.5] @ path @ [Stroke]"
    by (auto simp add: subScale_def)
  from subTickLoop_keeps [OF p] show ?thesis
    unfolding sub by (simp add: texts_append lineEnds_append texts_Cons lineEnds_Cons texts_Nil lineEnds_Nil)
next
  case False
  with assms show ?thesis by (simp add: subScale_def texts_Nil lineEnds_Nil)
qed


lemma majorTick_texts:
  "texts (majorTick tza tw now W i) =
     (if 0 \<le> tickX now W i \<and> tickX now W i \<le> W
      then [(timeStr tza (newDate (labelTime tw now i)), tickX now W i, 20)] else [])"
  by (simp add: majorTick_def texts_Cons texts_Nil)



lemma majorTicks_texts:
  "texts (majorTicks tza tw now W) =
     map (\<lambda>i. (timeStr tza (newDate (labelTime tw now i)), tickX now W i, 20))
       (filter (\<lambda>i. 0 \<le> tickX now W i \<and> tickX now W i \<le> W) [0..<7])"
  unfolding majorTicks_def texts_concat map_map o_def majorTick_texts
  by (rule concat_map_if)



lemma badges_texts:
  "texts (badges tza tw now W) =
     [(''['' @ timeStr tza (newDate (now - tw)), 4, 20),
      (timeStr tza (newDate now) @ '']'', W - 4, 20)]"
  by (simp add: badges_def texts_Cons texts_Nil)


lemma drawTimeAxis_Some:
  "drawTimeAxis tza tw sx d now W H = Some cmds \<longleftrightarrow>
   (\<exists>sub. subScale sx d now W = Some sub \<and>
      cmds = [ClearRect 0 0 W H, BeginPath, StrokeStyle ''#333'', LineWidth 1,
              MoveTo 0 0, LineTo W 0, Stroke]
             @ sub @ [Font ''12px Arial'', FillStyle ''#666'', TextAlign ''center'']
             @ majorTicks tza tw now W @ badges tza tw now W)"
  by (auto simp add: drawTimeAxis_def)

lemma drawTimeAxis_texts:
  assumes "drawTimeAxis tza tw sx d now W H = Some cmds"
  shows "texts cmds =
     map (\<lambda>i. (timeStr tza (newDate (labelTime tw now i)), tickX now W i, 20))
       (filter (\<lambda>i. 0 \<le> tickX now W i \<and> tickX now W i \<le> W) [0..<7])
     @ [(''['' @ timeStr tza (newDate (now - tw)), 4, 20),
        (timeStr tza (newDate now) @ '']'', W - 4, 20)]"
proof -
  from assms obtain sub where s: "subScale sx d now W = Some sub"
    and c: "cmds = [ClearRect 0 0 W H, BeginPath, StrokeStyle ''#333'', LineWidth 1,
              MoveTo 0 0, LineTo W 0, Stroke]
             @ sub @ [Font ''12px Arial'', FillStyle ''#666'', TextAlign ''center'']
             @ majorTicks tza tw now W @ badges tza tw now W"
    unfolding drawTimeAxis_Some by blast
  show ?thesis
    unfolding c texts_append majorTicks_texts badges_texts
    using subScale_keeps [OF s] by (simp add: texts_Cons texts_Nil)
qed




lemma subScale_density_pos:
  assumes "0 < W" and "1 \<le> d"
  shows "subScale True d now W =
         Some ([BeginPath, StrokeStyle ''#999'', LineWidth 0.5]
               @ concat (map (\<lambda>k. subTick W (Fin (of_nat k * (W / of_int d) - scrollOffset now W)))
                           [0..<nat d])
               @ [Stroke])"
  using subTickLoop_density_pos [OF assms] by (simp add: subScale_def)

lemma subScale_density_zero:
  "subScale True 0 now W =
   Some ([BeginPath, StrokeStyle ''#999'', LineWidth 0.5]
         @ (if 0 < W then subTick W (Fin (- scrollOffset now W)) else [])
         @ [Stroke])"
  using subTickLoop_density_zero [of W "scrollOffset now W" "[]"] by (simp add: subScale_def)

lemma subScale_returns:
  assumes "0 \<le> d"
  shows "\<exists>sub. subScale sx d now W = Some sub"
proof (cases "sx \<and> 0 < W")
  case True
  show ?thesis
  proof (cases "d = 0")
    case True
    then show ?thesis using subScale_density_zero \<open>sx \<and> 0 < W\<close> by simp
  next
    case False
    with assms have "1 \<le> d" by simp
    from subScale_density_pos [OF _ this] True show ?thesis by simp
  qed
next
  case False
  then show ?thesis
    by (auto simp add: subScale_def subTickLoop_nonpos_width)
qed

lemma drawTimeAxis_returns:
  assumes "0 \<le> d"
  shows "\<exists>cmds. drawTimeAxis tza tw sx d now W H = Some cmds"
  using subScale_returns [OF assms, of sx now W] by (auto simp add: drawTimeAxis_def)



lemma padStart_2:
  "padStart 2 c [a] = [c, a]" "padStart 2 c [a, b] = [a, b]" "padStart 2 c [a, b, e] = [a, b, e]"
  by (simp_all add: padStart_def numeral_2_eq_2)

lemma padStart_3:
  "padStart 3 c [a] = [c, c, a]" "padStart 3 c [a, b] = [c, a, b]"
  "padStart 3 c [a, b, e] = [a, b, e]"
  by (simp_all add: padStart_def numeral_3_eq_3)

lemma take_2: "take 2 (a # b # xs) = [a, b]"
  by (simp add: numeral_2_eq_2)

lemma timeStr_utc:
  "\<bar>v\<bar> \<le> 8640000000000000 \<Longrightarrow>
   timeStr utc (newDate v) =
     padStart 2 (CHR ''0'') (natToString (nat ((trunc v div 3600000) mod 24))) @ '':'' @
     padStart 2 (CHR ''0'') (natToString (nat ((trunc v div 60000) mod 60))) @ '':'' @
     padStart 2 (CHR ''0'') (natToString (nat ((trunc v div 1000) mod 60))) @ ''.'' @
     take 2 (padStart 3 (CHR ''0'') (natToString (nat (trunc v mod 1000))))"
  by (simp add: timeStr_def newDate_def getHours_def getMinutes_def getSeconds_def
        getMilliseconds_def toString_def utc_def)


subsection \<open>The sample loop\<close>


lemma upt_Suc_shift: "[0..<Suc n] = 0 # map Suc [0..<n]"
  by (simp add: upt_conv_Cons map_Suc_upt del: upt_Suc)





lemma signal_bound: "\<bar>signal a p t\<bar> \<le> \<bar>a\<bar>"
proof -
  have "\<bar>signal a p t\<bar> = \<bar>a\<bar> * \<bar>sin (2 * pi * (t + p) / 2)\<bar>"
    by (simp add: signal_def abs_mult)
  also have "\<dots> \<le> \<bar>a\<bar> * 1"
    by (rule mult_left_mono) simp_all
  finally show ?thesis by simp
qed

lemma clampY_id: "\<bar>a\<bar> \<le> 10 \<Longrightarrow> clampY (signal a p t) = signal a p t"
  using signal_bound [of a p t]
  by (simp add: clampY_def Y_AXIS_MIN_def Y_AXIS_MAX_def)


subsection \<open>The frame\<close>

lemma sampleLoop_unclamped_eq:
  "\<bar>a\<bar> \<le> 10 \<Longrightarrow> sampleLoop c s a t acc = sampleLoop_unclamped c s a t acc"
proof (induction c s a t acc rule: sampleLoop.induct)
  case (1 c s a t acc)
  have same: "sampleAt c s a t = sampleAt_unclamped c s a t"
    using 1(2) by (simp add: sampleAt_def sampleAt_unclamped_def clampY_id)
  show ?case
  proof (cases "t \<le> 0")
    case True
    then show ?thesis
      using 1 same
      by (subst sampleLoop.simps, subst sampleLoop_unclamped.simps) simp
  next
    case False
    then show ?thesis
      by (subst sampleLoop.simps, subst sampleLoop_unclamped.simps) simp
  qed
qed


lemma offsets_10000: "offsets 10000 = map (\<lambda>k. - 10 + of_nat k * 0.02) [0..<501]"
  by (simp add: offsets_def del: upt_Suc)







lemma updateFrame_Some:
  "updateFrame tza tw amp sx d st W H now = Some f \<longleftrightarrow>
   (\<exists>cmds. drawTimeAxis tza tw sx d now W H = Some cmds \<and>
      f = \<lparr>dataRef_current = generate now st tw amp,
           setOption = \<lparr>xAxis_min = now - tw, xAxis_max = now,
                        yAxis_min = Y_AXIS_MIN, yAxis_max = Y_AXIS_MAX,
                        series_data = generate now st tw amp\<rparr>,
           overlay = cmds\<rparr>)"
  by (auto simp add: updateFrame_def)

lemma useRef_stored: "useRef (Some current) v = current"
  by (simp add: useRef_def)

lemma render_keeps: "startTime_ref a = Some st \<Longrightarrow> startTime_ref (render now a) = Some st"
  by (simp add: render_def useRef_def)

lemma effectSetup_keeps: "startTime_ref (effectSetup a) = startTime_ref a"
  by (simp add: effectSetup_def split: option.split)

lemma effectCleanup_keeps: "startTime_ref (effectCleanup a) = startTime_ref a"
  by (simp add: effectCleanup_def)

lemma rerender_keeps:
  "startTime_ref a = Some st \<Longrightarrow> startTime_ref a' = Some st \<Longrightarrow>
   startTime_ref (rerender now a a') = Some st"
  by (simp add: rerender_def effectSetup_keeps effectCleanup_keeps render_keeps)

lemma handle_keeps:
  assumes "handle tza W H now ev a = Some a'" and "startTime_ref a = Some st"
  shows "startTime_ref a' = Some st"
proof (cases ev)
  case AnimationFrame
  with assms show ?thesis by (auto split: if_splits)
next
  case Resize
  with assms show ?thesis by simp
qed (use assms in \<open>auto simp add: rerender_keeps\<close>)

lemma run_keeps:
  "run tza W H evs a = Some a' \<Longrightarrow> startTime_ref a = Some st \<Longrightarrow> startTime_ref a' = Some st"
proof (induction evs arbitrary: a)
  case Nil
  then show ?case by simp
next
  case (Cons e evs)
  obtain now ev where e: "e = (now, ev)" by (cases e)
  from Cons.prems(1) obtain b where h: "handle tza W H now ev a = Some b"
    and r: "run tza W H evs b = Some a'"
    unfolding e by (auto split: option.splits)
  from handle_keeps [OF h Cons.prems(2)] Cons.IH [OF r] show ?case by simp
qed

lemma mount_startTime: "startTime_ref (mount t0) = Some t0"
  by (simp add: mount_def effectSetup_keeps render_def unmounted_def useRef_def)

lemma frame_phase:
  assumes "handle tza W H now AnimationFrame a = Some a'"
      and "startTime_ref a = Some st" and "frame_scheduled a"
  shows "dataRef a' = generate now st (s_timeWindow a) (s_amplitude a)"
  using assms by (auto simp add: updateFrame_Some)


subsection \<open>Binary64 rounding\<close>

lemma pow2_pos: "0 < pow2 j"
  by (simp add: pow2_def)

lemma expoUp_bounds: "2 ^ e \<le> n \<Longrightarrow> n < 2 ^ Suc e \<Longrightarrow> expoUp n = int e"
proof (induction e arbitrary: n)
  case 0
  then have "n = 1" by simp
  then show ?case by (simp add: expoUp.simps)
next
  case (Suc e)
  have "(1::nat) \<le> 2 ^ e" by simp
  then have "(2::nat) \<le> 2 ^ Suc e" by simp
  with Suc.prems have "2 \<le> n" by linarith
  moreover from Suc.prems have "2 ^ e \<le> n div 2" and "n div 2 < 2 ^ Suc e"
    by simp_all
  ultimately show ?case
    using Suc.IH [of "n div 2"] by (subst expoUp.simps) simp
qed

lemma expo_ge1:
  assumes "2 ^ e \<le> a" and "a < 2 ^ Suc e"
  shows "expo a = int e"
proof -
  have "(1::real) \<le> 2 ^ e" by simp
  with assms have a1: "1 \<le> a" by linarith
  have "(2::int) ^ e \<le> \<lfloor>a\<rfloor>"
    using assms(1) by (simp add: le_floor_iff)
  moreover have f0: "0 \<le> \<lfloor>a\<rfloor>" using a1 by simp
  ultimately have lo: "2 ^ e \<le> nat \<lfloor>a\<rfloor>"
    by (simp add: le_nat_iff)
  have "\<lfloor>a\<rfloor> < 2 ^ Suc e"
    using assms(2) by (simp add: floor_less_iff)
  then have hi: "nat \<lfloor>a\<rfloor> < 2 ^ Suc e"
    using f0 by (simp add: nat_less_iff)
  show ?thesis
    using a1 expoUp_bounds [OF lo hi] by (simp add: expo_def)
qed

lemma expo_lt1:
  assumes "1 / 2 ^ Suc e \<le> a" and "a < 1 / 2 ^ e"
  shows "expo a = - 1 - int e"
proof -
  have "0 < 1 / (2::real) ^ Suc e" by simp
  with assms(1) have a0: "0 < a" by linarith
  have "1 / (2::real) ^ e \<le> 1" by simp
  with assms(2) have a1: "\<not> 1 \<le> a" by linarith
  have up: "1 / a \<le> 2 ^ Suc e"
    using assms(1) a0 by (simp add: field_simps)
  have lo: "2 ^ e < 1 / a"
    using assms(2) a0 by (simp add: field_simps)
  have "\<lceil>1 / a\<rceil> \<le> 2 ^ Suc e"
    using up by (simp add: ceiling_le_iff)
  moreover have "(2::int) ^ e < \<lceil>1 / a\<rceil>"
    using lo by (simp add: less_ceiling_iff)
  ultimately have b1: "2 ^ e \<le> \<lceil>1 / a\<rceil> - 1" and b2: "\<lceil>1 / a\<rceil> - 1 < 2 ^ Suc e"
    by simp_all
  have "(0::int) \<le> 2 ^ e" by simp
  with b1 have b0: "0 \<le> \<lceil>1 / a\<rceil> - 1" by linarith
  have "2 ^ e \<le> nat (\<lceil>1 / a\<rceil> - 1)" and "nat (\<lceil>1 / a\<rceil> - 1) < 2 ^ Suc e"
    using b0 b1 b2 by (simp_all add: le_nat_iff nat_less_iff)
  then have "expoUp (nat (\<lceil>1 / a\<rceil> - 1)) = int e"
    by (rule expoUp_bounds)
  then show ?thesis using a1 by (simp add: expo_def)
qed

lemma expo_pow2:
  assumes "pow2 j \<le> a" and "a < pow2 (j + 1)"
  shows "expo a = j"
proof (cases "0 \<le> j")
  case True
  then have "pow2 j = 2 ^ nat j" and "pow2 (j + 1) = 2 ^ Suc (nat j)"
    by (simp_all add: pow2_def nat_add_distrib)
  with assms expo_ge1 [of "nat j" a] True show ?thesis by simp
next
  case False
  then have n: "nat (- j) = Suc (nat (- j - 1))" by simp
  have "pow2 j = 1 / 2 ^ Suc (nat (- j - 1))"
    using False n by (simp add: pow2_def)
  moreover have "pow2 (j + 1) = 1 / 2 ^ nat (- j - 1)"
    using False by (cases "j = - 1") (simp_all add: pow2_def algebra_simps)
  ultimately show ?thesis
    using assms expo_lt1 [of "nat (- j - 1)" a] False by simp
qed

lemma roundEven_near: "\<bar>f\<bar> < 1 / 2 \<Longrightarrow> roundEven (of_int m + f) = m"
proof (cases "0 \<le> f")
  case True
  assume "\<bar>f\<bar> < 1 / 2"
  with True have "\<lfloor>of_int m + f\<rfloor> = m" by linarith
  with True \<open>\<bar>f\<bar> < 1 / 2\<close> show ?thesis by (simp add: roundEven_def)
next
  case False
  assume "\<bar>f\<bar> < 1 / 2"
  with False have "\<lfloor>of_int m + f\<rfloor> = m - 1" by linarith
  with False \<open>\<bar>f\<bar> < 1 / 2\<close> show ?thesis by (simp add: roundEven_def)
qed

lemma round64_negative:
  assumes "pow2 j \<le> - x" and "- x < pow2 (j + 1)" and "- 1022 \<le> j"
      and "- x / pow2 (j - 52) = of_int m + f" and "\<bar>f\<bar> < 1 / 2"
      and "of_int m * pow2 (j - 52) < pow2 1024"
  shows "round64 x = Fin (- (of_int m * pow2 (j - 52)))"
proof -
  have neg: "x < 0" using assms(1) pow2_pos [of j] by linarith
  then have ax: "\<bar>x\<bar> = - x" by simp
  have e: "expo \<bar>x\<bar> = j"
    unfolding ax using assms(1,2) by (rule expo_pow2)
  have m: "max (j - 52) (- 1074) = j - 52" using assms(3) by simp
  have q: "quantize (j - 52) \<bar>x\<bar> = of_int m * pow2 (j - 52)"
    unfolding ax quantize_def assms(4) using assms(5) by (simp add: roundEven_near)
  show ?thesis
    unfolding round64_def e m q using neg assms(6) by simp
qed

lemma step_literal: "round64 (2 / 100) = Fin (5764607523034235 / 288230376151711744)"
  by (simp add: round64_def quantize_def expo_def expoUp.simps pow2_def roundEven_def)

lemma step_literal_simp: "round64 (1 / 50) = Fin (5764607523034235 / 288230376151711744)"
  using step_literal by simp

lemma step_positive: "(0::real) < 5764607523034235 / 288230376151711744"
  by simp


lemma progression_Suc: "progression t D (Suc n) = Fin t # progression (t + D) D n"
  unfolding progression_def upt_Suc_shift
  by (simp add: algebra_simps o_def del: upt_Suc)

lemma progression_0: "progression t D 0 = []"
  by (simp add: progression_def)

lemma length_progression: "length (progression t D n) = n"
  by (simp add: progression_def)

lemma visited64_step:
  assumes "round64 (2 / 100) = Fin c" and "0 < c"
      and "- 1022 \<le> j" and "c / pow2 (j - 52) = of_int q + f" and "\<bar>f\<bar> < 1 / 2" and "0 \<le> q"
      and "t / pow2 (j - 52) = of_int M"
      and "pow2 j \<le> - (t + c)" and "- (t + c) < pow2 (j + 1)"
      and "- t < pow2 1024"
  shows "visited64 (Suc fuel) (Fin t) =
         map_option ((#) (Fin t)) (visited64 fuel (Fin (t + of_int q * pow2 (j - 52))))"
proof -
  let ?g = "pow2 (j - 52)"
  have g: "0 < ?g" by (rule pow2_pos)
  have t0: "t < 0" using assms(8) assms(2) pow2_pos [of j] by linarith
  have tM: "t = of_int M * ?g" using assms(7) g by (simp add: field_simps)
  have "- (t + c) / ?g = (- t - c) / ?g"
    by simp
  also have "\<dots> = - (t / ?g) - c / ?g"
    by (simp add: diff_divide_distrib)
  also have "\<dots> = of_int (- M - q) + (- f)"
    unfolding assms(4) assms(7) by simp
  finally have frac: "- (t + c) / ?g = of_int (- M - q) + (- f)" .
  have "of_int (- M - q) * ?g = - t - of_int q * ?g"
    unfolding tM by (simp add: algebra_simps)
  also have "\<dots> \<le> - t"
    using assms(6) g by simp
  finally have small: "of_int (- M - q) * ?g < pow2 1024"
    using assms(10) by linarith
  have "round64 (t + c) = Fin (- (of_int (- M - q) * ?g))"
    using assms(8) assms(9) assms(3) frac _ small
    by (rule round64_negative) (use assms(5) in simp)
  also have "- (of_int (- M - q) * ?g) = t + of_int q * ?g"
    unfolding tM by (simp add: algebra_simps)
  finally have "fadd64 (Fin t) (round64 (2 / 100)) = Fin (t + of_int q * ?g)"
    unfolding assms(1) by simp
  then show ?thesis
    using t0 by simp
qed

lemma visited64_phase:
  assumes "round64 (2 / 100) = Fin c" and "0 < c"
      and "- 1022 \<le> j" and "c / pow2 (j - 52) = of_int q + f" and "\<bar>f\<bar> < 1 / 2" and "0 \<le> q"
  shows "t / pow2 (j - 52) = of_int M \<Longrightarrow>
         pow2 j \<le> - (t + of_nat n * (of_int q * pow2 (j - 52)) + c) \<Longrightarrow>
         - (t + c) < pow2 (j + 1) \<Longrightarrow> - t < pow2 1024 \<Longrightarrow>
         visited64 (Suc n + fuel) (Fin t) =
         map_option ((@) (progression t (of_int q * pow2 (j - 52)) (Suc n)))
           (visited64 fuel (Fin (t + of_nat (Suc n) * (of_int q * pow2 (j - 52)))))"
proof (induction n arbitrary: t M)
  case 0
  then show ?case
    using visited64_step [OF assms, of t M fuel]
    by (simp add: progression_Suc progression_0 option.map_comp o_def)
next
  case (Suc n)
  let ?D = "of_int q * pow2 (j - 52)"
  have D: "0 \<le> ?D" using assms(6) pow2_pos [of "j - 52"] by simp
  have nD: "0 \<le> of_nat (Suc n) * ?D" using D by simp
  have bottom: "pow2 j \<le> - (t + c)"
    using Suc.prems(2) nD by linarith
  have one: "visited64 (Suc (Suc n) + fuel) (Fin t) =
             map_option ((#) (Fin t)) (visited64 (Suc n + fuel) (Fin (t + ?D)))"
    using visited64_step [OF assms Suc.prems(1) bottom Suc.prems(3) Suc.prems(4),
        of "Suc n + fuel"]
    by simp
  have grid: "(t + ?D) / pow2 (j - 52) = of_int (M + q)"
    using Suc.prems(1) pow2_pos [of "j - 52"] by (simp add: field_simps)
  have b2: "pow2 j \<le> - (t + ?D + of_nat n * ?D + c)"
    using Suc.prems(2) by (simp add: algebra_simps)
  have t2: "- (t + ?D + c) < pow2 (j + 1)"
    using Suc.prems(3) D by linarith
  have s2: "- (t + ?D) < pow2 1024" using Suc.prems(4) D by linarith
  have two: "visited64 (Suc n + fuel) (Fin (t + ?D)) =
        map_option ((@) (progression (t + ?D) ?D (Suc n)))
          (visited64 fuel (Fin (t + ?D + of_nat (Suc n) * ?D)))"
    by (rule Suc.IH [OF grid b2 t2 s2])
  have three: "t + ?D + of_nat (Suc n) * ?D = t + of_nat (Suc (Suc n)) * ?D"
    by (simp add: algebra_simps)
  show ?case
    unfolding one two three progression_Suc [of t ?D "Suc n"]
    by (simp add: option.map_comp o_def)
qed

lemma visited64_sound:
  "visited64 fuel t = Some ts \<Longrightarrow>
   sampleLoop64 msin ct st amp t newData =
     Some (newData @ concat (map (sampleAt64 msin ct st amp) ts))"
proof (induction fuel arbitrary: t ts newData)
  case 0
  then show ?case by simp
next
  case (Suc fuel)
  show ?case
  proof (cases "nle t (Fin 0)")
    case True
    with Suc.prems obtain ts' where
      v: "visited64 fuel (fadd64 t (round64 (2 / 100))) = Some ts'" and ts: "ts = t # ts'"
      by auto
    have "sampleLoop64 msin ct st amp t newData =
          sampleLoop64 msin ct st amp (fadd64 t (round64 (2 / 100)))
            (newData @ sampleAt64 msin ct st amp t)"
      using True by (subst sampleLoop64.simps) simp
    with Suc.IH [OF v, of "newData @ sampleAt64 msin ct st amp t"] ts show ?thesis
      by simp
  next
    case False
    with Suc.prems have "ts = []" by simp
    moreover have "sampleLoop64 msin ct st amp t newData = Some newData"
      using False by (subst sampleLoop64.simps) simp
    ultimately show ?thesis by simp
  qed
qed

lemma visited64_numeral:
  "visited64 (numeral k) t =
     (if nle t (Fin 0)
      then map_option ((#) t) (visited64 (pred_numeral k) (fadd64 t (round64 (2 / 100))))
      else Some [])"
  by (simp add: numeral_eq_Suc)

subsection \<open>Lists of visited values\<close>

lemma hd_progression: "0 < n \<Longrightarrow> hd (progression t D n @ xs) = Fin t"
  by (cases n) (simp_all add: progression_Suc)

lemma list_all_progression:
  "e \<le> t \<Longrightarrow> 0 \<le> D \<Longrightarrow> list_all (nle (Fin e)) (progression t D n)"
proof (induction n arbitrary: t)
  case 0
  then show ?case by (simp add: progression_0)
next
  case (Suc n)
  from Suc.prems have "e \<le> t + D" by linarith
  from Suc.IH [OF this Suc.prems(2)] Suc.prems(1) show ?case
    by (simp add: progression_Suc)
qed

lemma sampleAt64_pushed:
  "list_all (nle (fneg (elapsedTime64 ct st))) ts \<Longrightarrow>
   concat (map (sampleAt64 msin ct st amp) ts) = map (sample64 msin ct st amp) ts"
  by (induction ts) (simp_all add: sampleAt64_def)

text \<open>
  A list of numbers that follows, one for one and within \<open>\<epsilon>\<close>, the values
  \<open>a + k * c\<close> for \<open>k = k0, k0 + 1, \<dots>\<close>.
\<close>

lemma near_Nil:
  "list_all2 (\<lambda>x k. \<exists>r. x = Fin r \<and> \<bar>r - (a + of_nat k * c)\<bar> \<le> \<epsilon>) [] [k0..<k0 + length ([] :: number list)]"
  by simp

lemma near_Cons:
  assumes "\<bar>r - (a + of_nat k0 * c)\<bar> \<le> \<epsilon>"
      and "list_all2 (\<lambda>x k. \<exists>r. x = Fin r \<and> \<bar>r - (a + of_nat k * c)\<bar> \<le> \<epsilon>) xs
             [Suc k0..<Suc k0 + length xs]"
  shows "list_all2 (\<lambda>x k. \<exists>r. x = Fin r \<and> \<bar>r - (a + of_nat k * c)\<bar> \<le> \<epsilon>) (Fin r # xs)
           [k0..<k0 + length (Fin r # xs)]"
proof -
  have "[k0..<k0 + length (Fin r # xs)] = k0 # [Suc k0..<Suc k0 + length xs]"
    by (simp add: upt_conv_Cons del: upt_Suc)
  with assms show ?thesis by simp
qed

lemma near_append:
  assumes "list_all2 (\<lambda>x k. \<exists>r. x = Fin r \<and> \<bar>r - (a + of_nat k * c)\<bar> \<le> \<epsilon>) xs
             [k0..<k0 + length xs]"
      and "list_all2 (\<lambda>x k. \<exists>r. x = Fin r \<and> \<bar>r - (a + of_nat k * c)\<bar> \<le> \<epsilon>) ys
             [k0 + length xs..<k0 + length xs + length ys]"
  shows "list_all2 (\<lambda>x k. \<exists>r. x = Fin r \<and> \<bar>r - (a + of_nat k * c)\<bar> \<le> \<epsilon>) (xs @ ys)
           [k0..<k0 + length (xs @ ys)]"
proof -
  have "[k0..<k0 + length (xs @ ys)] =
        [k0..<k0 + length xs] @ [k0 + length xs..<k0 + length xs + length ys]"
    using upt_add_eq_append [of k0 "k0 + length xs" "length ys"] by (simp add: add.assoc)
  with assms show ?thesis
    by (simp add: list_all2_appendI del: upt_Suc)
qed

lemma near_progression:
  assumes "\<bar>t - (a + of_nat k0 * c)\<bar> + of_nat n * \<bar>D - c\<bar> \<le> \<epsilon>"
  shows "list_all2 (\<lambda>x k. \<exists>r. x = Fin r \<and> \<bar>r - (a + of_nat k * c)\<bar> \<le> \<epsilon>)
           (progression t D n) [k0..<k0 + length (progression t D n)]"
  using assms
proof (induction n arbitrary: t k0)
  case 0
  then show ?case by (simp add: progression_0)
next
  case (Suc n)
  have "\<bar>t + D - (a + of_nat (Suc k0) * c)\<bar> \<le> \<bar>t - (a + of_nat k0 * c)\<bar> + \<bar>D - c\<bar>"
    by (simp add: algebra_simps)
  moreover have "of_nat (Suc n) * \<bar>D - c\<bar> = of_nat n * \<bar>D - c\<bar> + \<bar>D - c\<bar>"
    by (simp add: algebra_simps)
  ultimately have step: "\<bar>t + D - (a + of_nat (Suc k0) * c)\<bar> + of_nat n * \<bar>D - c\<bar> \<le> \<epsilon>"
    using Suc.prems by linarith
  have "0 \<le> of_nat (Suc n) * \<bar>D - c\<bar>" by simp
  with Suc.prems have here: "\<bar>t - (a + of_nat k0 * c)\<bar> \<le> \<epsilon>" by linarith
  show ?case
    unfolding progression_Suc
    by (rule near_Cons [OF here]) (rule Suc.IH [OF step])
qed


subsection \<open>The values of \<open>t\<close> that the sample loop visits\<close>

lemma visited64_window_10s:
  "visited64 502 (Fin (- 10)) =
   Some (progression (- 10) (5629499534213 / 281474976710656) 100 @
         progression (- 562949953421315 / 70368744177664) (5629499534213 / 281474976710656) 200 @
         progression (- 281474976710665 / 70368744177664) (45035996273705 / 2251799813685248) 100 @
         progression (- 1125899906842695 / 562949953421312) (45035996273705 / 2251799813685248) 50 @
         progression (- 1125899906842765 / 1125899906842624) (45035996273705 / 2251799813685248) 25 @
         progression (- 1125899906842905 / 2251799813685248) (45035996273705 / 2251799813685248) 12 @
         progression (- 585467951558445 / 2251799813685248) (720575940379279 / 36028797018963968) 6 @
         progression (- 2522015791329723 / 18014398509481984) (1441151880758559 / 72057594037927936) 3 @
         [Fin (- 5764607523043215 / 72057594037927936), Fin (- 270215977642791 / 4503599627370496), Fin (- 2882303761526097 / 72057594037927936), Fin (- 5764607523070153 / 288230376151711744), Fin (- 17959 / 144115188075855872)])"
proof -
  have p0: "visited64 502 (Fin (- 10)) =
      map_option ((@) (progression (- 10) (5629499534213 / 281474976710656) 100)) (visited64 402 (Fin (- 562949953421315 / 70368744177664)))"
    using visited64_phase [OF step_literal step_positive,
        where j = "3" and q = "11258999068426" and f = "123 / 512" and t = "- 10" and M = "- 5629499534213120"
          and n = 99 and fuel = 402]
    by (simp add: pow2_def)
  have p1: "visited64 402 (Fin (- 562949953421315 / 70368744177664)) =
      map_option ((@) (progression (- 562949953421315 / 70368744177664) (5629499534213 / 281474976710656) 200)) (visited64 202 (Fin (- 281474976710665 / 70368744177664)))"
    using visited64_phase [OF step_literal step_positive,
        where j = "2" and q = "22517998136852" and f = "123 / 256" and t = "- 562949953421315 / 70368744177664" and M = "- 9007199254741040"
          and n = 199 and fuel = 202]
    by (simp add: pow2_def)
  have p2: "visited64 202 (Fin (- 281474976710665 / 70368744177664)) =
      map_option ((@) (progression (- 281474976710665 / 70368744177664) (45035996273705 / 2251799813685248) 100)) (visited64 102 (Fin (- 1125899906842695 / 562949953421312)))"
    using visited64_phase [OF step_literal step_positive,
        where j = "1" and q = "45035996273705" and f = "- 5 / 128" and t = "- 281474976710665 / 70368744177664" and M = "- 9007199254741280"
          and n = 99 and fuel = 102]
    by (simp add: pow2_def)
  have p3: "visited64 102 (Fin (- 1125899906842695 / 562949953421312)) =
      map_option ((@) (progression (- 1125899906842695 / 562949953421312) (45035996273705 / 2251799813685248) 50)) (visited64 52 (Fin (- 1125899906842765 / 1125899906842624)))"
    using visited64_phase [OF step_literal step_positive,
        where j = "0" and q = "90071992547410" and f = "- 5 / 64" and t = "- 1125899906842695 / 562949953421312" and M = "- 9007199254741560"
          and n = 49 and fuel = 52]
    by (simp add: pow2_def)
  have p4: "visited64 52 (Fin (- 1125899906842765 / 1125899906842624)) =
      map_option ((@) (progression (- 1125899906842765 / 1125899906842624) (45035996273705 / 2251799813685248) 25)) (visited64 27 (Fin (- 1125899906842905 / 2251799813685248)))"
    using visited64_phase [OF step_literal step_positive,
        where j = "- 1" and q = "180143985094820" and f = "- 5 / 32" and t = "- 1125899906842765 / 1125899906842624" and M = "- 9007199254742120"
          and n = 24 and fuel = 27]
    by (simp add: pow2_def)
  have p5: "visited64 27 (Fin (- 1125899906842905 / 2251799813685248)) =
      map_option ((@) (progression (- 1125899906842905 / 2251799813685248) (45035996273705 / 2251799813685248) 12)) (visited64 15 (Fin (- 585467951558445 / 2251799813685248)))"
    using visited64_phase [OF step_literal step_positive,
        where j = "- 2" and q = "360287970189640" and f = "- 5 / 16" and t = "- 1125899906842905 / 2251799813685248" and M = "- 9007199254743240"
          and n = 11 and fuel = 15]
    by (simp add: pow2_def)
  have p6: "visited64 15 (Fin (- 585467951558445 / 2251799813685248)) =
      map_option ((@) (progression (- 585467951558445 / 2251799813685248) (720575940379279 / 36028797018963968) 6)) (visited64 9 (Fin (- 2522015791329723 / 18014398509481984)))"
    using visited64_phase [OF step_literal step_positive,
        where j = "- 3" and q = "720575940379279" and f = "3 / 8" and t = "- 585467951558445 / 2251799813685248" and M = "- 9367487224935120"
          and n = 5 and fuel = 9]
    by (simp add: pow2_def)
  have p7: "visited64 9 (Fin (- 2522015791329723 / 18014398509481984)) =
      map_option ((@) (progression (- 2522015791329723 / 18014398509481984) (1441151880758559 / 72057594037927936) 3)) (visited64 6 (Fin (- 5764607523043215 / 72057594037927936)))"
    using visited64_phase [OF step_literal step_positive,
        where j = "- 4" and q = "1441151880758559" and f = "- 1 / 4" and t = "- 2522015791329723 / 18014398509481984" and M = "- 10088063165318892"
          and n = 2 and fuel = 6]
    by (simp add: pow2_def)
  have p8: "visited64 6 (Fin (- 5764607523043215 / 72057594037927936)) =
      Some [Fin (- 5764607523043215 / 72057594037927936), Fin (- 270215977642791 / 4503599627370496), Fin (- 2882303761526097 / 72057594037927936), Fin (- 5764607523070153 / 288230376151711744), Fin (- 17959 / 144115188075855872)]"
    by (simp add: visited64_numeral step_literal_simp round64_def quantize_def expo_def
          expoUp.simps pow2_def roundEven_def)
  show ?thesis
    by (simp only: p0 p1 p2 p3 p4 p5 p6 p7 p8 option.map)
qed

lemma visited64_window_60s:
  "visited64 3001 (Fin (- 60)) =
   Some (progression (- 60) (2814749767107 / 140737488355328) 1399 @
         progression (- 4506414377136987 / 140737488355328) (5629499534213 / 281474976710656) 800 @
         progression (- 2254614563451787 / 140737488355328) (5629499534213 / 281474976710656) 400 @
         progression (- 1128714656609187 / 140737488355328) (5629499534213 / 281474976710656) 200 @
         progression (- 565764703187887 / 140737488355328) (45035996273705 / 2251799813685248) 100 @
         progression (- 1137158905908923 / 562949953421312) (45035996273705 / 2251799813685248) 50 @
         progression (- 1148417904975221 / 1125899906842624) (45035996273705 / 2251799813685248) 25 @
         progression (- 1170935903107817 / 2251799813685248) (45035996273705 / 2251799813685248) 13 @
         progression (- 146366987887413 / 562949953421312) (720575940379279 / 36028797018963968) 6 @
         progression (- 2522015791259379 / 18014398509481984) (1441151880758559 / 72057594037927936) 3 @
         [Fin (- 5764607522761839 / 72057594037927936), Fin (- 270215977625205 / 4503599627370496), Fin (- 2882303761244721 / 72057594037927936), Fin (- 5764607521944649 / 288230376151711744)])"
proof -
  have p0: "visited64 3001 (Fin (- 60)) =
      map_option ((@) (progression (- 60) (2814749767107 / 140737488355328) 1399)) (visited64 1602 (Fin (- 4506414377136987 / 140737488355328)))"
    using visited64_phase [OF step_literal step_positive,
        where j = "5" and q = "2814749767107" and f = "- 901 / 2048" and t = "- 60" and M = "- 8444249301319680"
          and n = 1398 and fuel = 1602]
    by (simp add: pow2_def)
  have p1: "visited64 1602 (Fin (- 4506414377136987 / 140737488355328)) =
      map_option ((@) (progression (- 4506414377136987 / 140737488355328) (5629499534213 / 281474976710656) 800)) (visited64 802 (Fin (- 2254614563451787 / 140737488355328)))"
    using visited64_phase [OF step_literal step_positive,
        where j = "4" and q = "5629499534213" and f = "123 / 1024" and t = "- 4506414377136987 / 140737488355328" and M = "- 9012828754273974"
          and n = 799 and fuel = 802]
    by (simp add: pow2_def)
  have p2: "visited64 802 (Fin (- 2254614563451787 / 140737488355328)) =
      map_option ((@) (progression (- 2254614563451787 / 140737488355328) (5629499534213 / 281474976710656) 400)) (visited64 402 (Fin (- 1128714656609187 / 140737488355328)))"
    using visited64_phase [OF step_literal step_positive,
        where j = "3" and q = "11258999068426" and f = "123 / 512" and t = "- 2254614563451787 / 140737488355328" and M = "- 9018458253807148"
          and n = 399 and fuel = 402]
    by (simp add: pow2_def)
  have p3: "visited64 402 (Fin (- 1128714656609187 / 140737488355328)) =
      map_option ((@) (progression (- 1128714656609187 / 140737488355328) (5629499534213 / 281474976710656) 200)) (visited64 202 (Fin (- 565764703187887 / 140737488355328)))"
    using visited64_phase [OF step_literal step_positive,
        where j = "2" and q = "22517998136852" and f = "123 / 256" and t = "- 1128714656609187 / 140737488355328" and M = "- 9029717252873496"
          and n = 199 and fuel = 202]
    by (simp add: pow2_def)
  have p4: "visited64 202 (Fin (- 565764703187887 / 140737488355328)) =
      map_option ((@) (progression (- 565764703187887 / 140737488355328) (45035996273705 / 2251799813685248) 100)) (visited64 102 (Fin (- 1137158905908923 / 562949953421312)))"
    using visited64_phase [OF step_literal step_positive,
        where j = "1" and q = "45035996273705" and f = "- 5 / 128" and t = "- 565764703187887 / 140737488355328" and M = "- 9052235251006192"
          and n = 99 and fuel = 102]
    by (simp add: pow2_def)
  have p5: "visited64 102 (Fin (- 1137158905908923 / 562949953421312)) =
      map_option ((@) (progression (- 1137158905908923 / 562949953421312) (45035996273705 / 2251799813685248) 50)) (visited64 52 (Fin (- 1148417904975221 / 1125899906842624)))"
    using visited64_phase [OF step_literal step_positive,
        where j = "0" and q = "90071992547410" and f = "- 5 / 64" and t = "- 1137158905908923 / 562949953421312" and M = "- 9097271247271384"
          and n = 49 and fuel = 52]
    by (simp add: pow2_def)
  have p6: "visited64 52 (Fin (- 1148417904975221 / 1125899906842624)) =
      map_option ((@) (progression (- 1148417904975221 / 1125899906842624) (45035996273705 / 2251799813685248) 25)) (visited64 27 (Fin (- 1170935903107817 / 2251799813685248)))"
    using visited64_phase [OF step_literal step_positive,
        where j = "- 1" and q = "180143985094820" and f = "- 5 / 32" and t = "- 1148417904975221 / 1125899906842624" and M = "- 9187343239801768"
          and n = 24 and fuel = 27]
    by (simp add: pow2_def)
  have p7: "visited64 27 (Fin (- 1170935903107817 / 2251799813685248)) =
      map_option ((@) (progression (- 1170935903107817 / 2251799813685248) (45035996273705 / 2251799813685248) 13)) (visited64 14 (Fin (- 146366987887413 / 562949953421312)))"
    using visited64_phase [OF step_literal step_positive,
        where j = "- 2" and q = "360287970189640" and f = "- 5 / 16" and t = "- 1170935903107817 / 2251799813685248" and M = "- 9367487224862536"
          and n = 12 and fuel = 14]
    by (simp add: pow2_def)
  have p8: "visited64 14 (Fin (- 146366987887413 / 562949953421312)) =
      map_option ((@) (progression (- 146366987887413 / 562949953421312) (720575940379279 / 36028797018963968) 6)) (visited64 8 (Fin (- 2522015791259379 / 18014398509481984)))"
    using visited64_phase [OF step_literal step_positive,
        where j = "- 3" and q = "720575940379279" and f = "3 / 8" and t = "- 146366987887413 / 562949953421312" and M = "- 9367487224794432"
          and n = 5 and fuel = 8]
    by (simp add: pow2_def)
  have p9: "visited64 8 (Fin (- 2522015791259379 / 18014398509481984)) =
      map_option ((@) (progression (- 2522015791259379 / 18014398509481984) (1441151880758559 / 72057594037927936) 3)) (visited64 5 (Fin (- 5764607522761839 / 72057594037927936)))"
    using visited64_phase [OF step_literal step_positive,
        where j = "- 4" and q = "1441151880758559" and f = "- 1 / 4" and t = "- 2522015791259379 / 18014398509481984" and M = "- 10088063165037516"
          and n = 2 and fuel = 5]
    by (simp add: pow2_def)
  have p10: "visited64 5 (Fin (- 5764607522761839 / 72057594037927936)) =
      Some [Fin (- 5764607522761839 / 72057594037927936), Fin (- 270215977625205 / 4503599627370496), Fin (- 2882303761244721 / 72057594037927936), Fin (- 5764607521944649 / 288230376151711744)]"
    by (simp add: visited64_numeral step_literal_simp round64_def quantize_def expo_def
          expoUp.simps pow2_def roundEven_def)
  show ?thesis
    by (simp only: p0 p1 p2 p3 p4 p5 p6 p7 p8 p9 p10 option.map)
qed

lemma visited_window_10s:
  "\<exists>ts. visited64 502 (Fin (- 10)) = Some ts \<and> length ts = 501 \<and>
        hd ts = Fin (- 10) \<and> last ts = Fin (- 17959 / 144115188075855872) \<and>
        list_all (nle (Fin (- 10))) ts \<and>
        list_all2 (\<lambda>t r. \<exists>x. t = Fin x \<and> \<bar>x - r\<bar> \<le> 1 / 2 ^ 42) ts (offsets 10000)"
proof -
  define ts where "ts =
          progression (- 10) (5629499534213 / 281474976710656) 100 @
          progression (- 562949953421315 / 70368744177664) (5629499534213 / 281474976710656) 200 @
          progression (- 281474976710665 / 70368744177664) (45035996273705 / 2251799813685248) 100 @
          progression (- 1125899906842695 / 562949953421312) (45035996273705 / 2251799813685248) 50 @
          progression (- 1125899906842765 / 1125899906842624) (45035996273705 / 2251799813685248) 25 @
          progression (- 1125899906842905 / 2251799813685248) (45035996273705 / 2251799813685248) 12 @
          progression (- 585467951558445 / 2251799813685248) (720575940379279 / 36028797018963968) 6 @
          progression (- 2522015791329723 / 18014398509481984) (1441151880758559 / 72057594037927936) 3 @
          [Fin (- 5764607523043215 / 72057594037927936), Fin (- 270215977642791 / 4503599627370496), Fin (- 2882303761526097 / 72057594037927936), Fin (- 5764607523070153 / 288230376151711744), Fin (- 17959 / 144115188075855872)]"
  have v: "visited64 502 (Fin (- 10)) = Some ts"
    unfolding ts_def by (rule visited64_window_10s)
  have len: "length ts = 501"
    by (simp add: ts_def length_progression)
  have h: "hd ts = Fin (- 10)"
    unfolding ts_def by (rule hd_progression) simp
  have l: "last ts = Fin (- 17959 / 144115188075855872)"
    by (simp add: ts_def)
  have g: "list_all (nle (Fin (- 10))) ts"
    by (simp add: ts_def list_all_progression)
  have "list_all2 (\<lambda>x k. \<exists>r. x = Fin r \<and> \<bar>r - (- 10 + of_nat k * 0.02)\<bar> \<le> 1 / 2 ^ 42)
          ts [0..<0 + length ts]"
    unfolding ts_def
    apply (rule near_append [where a = "- 10" and c = "0.02" and \<epsilon> = "1 / 2 ^ 42"])
     apply (rule near_progression [where a = "- 10" and c = "0.02" and \<epsilon> = "1 / 2 ^ 42"])
     apply (simp add: length_progression)
    apply (rule near_append [where a = "- 10" and c = "0.02" and \<epsilon> = "1 / 2 ^ 42"])
     apply (rule near_progression [where a = "- 10" and c = "0.02" and \<epsilon> = "1 / 2 ^ 42"])
     apply (simp add: length_progression)
    apply (rule near_append [where a = "- 10" and c = "0.02" and \<epsilon> = "1 / 2 ^ 42"])
     apply (rule near_progression [where a = "- 10" and c = "0.02" and \<epsilon> = "1 / 2 ^ 42"])
     apply (simp add: length_progression)
    apply (rule near_append [where a = "- 10" and c = "0.02" and \<epsilon> = "1 / 2 ^ 42"])
     apply (rule near_progression [where a = "- 10" and c = "0.02" and \<epsilon> = "1 / 2 ^ 42"])
     apply (simp add: length_progression)
    apply (rule near_append [where a = "- 10" and c = "0.02" and \<epsilon> = "1 / 2 ^ 42"])
     apply (rule near_progression [where a = "- 10" and c = "0.02" and \<epsilon> = "1 / 2 ^ 42"])
     apply (simp add: length_progression)
    apply (rule near_append [where a = "- 10" and c = "0.02" and \<epsilon> = "1 / 2 ^ 42"])
     apply (rule near_progression [where a = "- 10" and c = "0.02" and \<epsilon> = "1 / 2 ^ 42"])
     apply (simp add: length_progression)
    apply (rule near_append [where a = "- 10" and c = "0.02" and \<epsilon> = "1 / 2 ^ 42"])
     apply (rule near_progression [where a = "- 10" and c = "0.02" and \<epsilon> = "1 / 2 ^ 42"])
     apply (simp add: length_progression)
    apply (rule near_append [where a = "- 10" and c = "0.02" and \<epsilon> = "1 / 2 ^ 42"])
     apply (rule near_progression [where a = "- 10" and c = "0.02" and \<epsilon> = "1 / 2 ^ 42"])
     apply (simp add: length_progression)
    apply (rule near_Cons [where a = "- 10" and c = "0.02" and \<epsilon> = "1 / 2 ^ 42"])
     apply (simp add: length_progression)
    apply (rule near_Cons [where a = "- 10" and c = "0.02" and \<epsilon> = "1 / 2 ^ 42"])
     apply (simp add: length_progression)
    apply (rule near_Cons [where a = "- 10" and c = "0.02" and \<epsilon> = "1 / 2 ^ 42"])
     apply (simp add: length_progression)
    apply (rule near_Cons [where a = "- 10" and c = "0.02" and \<epsilon> = "1 / 2 ^ 42"])
     apply (simp add: length_progression)
    apply (rule near_Cons [where a = "- 10" and c = "0.02" and \<epsilon> = "1 / 2 ^ 42"])
     apply (simp add: length_progression)
    apply (rule near_Nil)
    done
  then have near: "list_all2 (\<lambda>x k. \<exists>r. x = Fin r \<and> \<bar>r - (- 10 + of_nat k * 0.02)\<bar> \<le> 1 / 2 ^ 42)
          ts [0..<501]"
    unfolding len by (simp only: add_0)
  have o: "offsets 10000 = map (\<lambda>k. - 10 + of_nat k * 0.02) [0..<501]"
    by (simp add: offsets_def del: upt_Suc)
  have "list_all2 (\<lambda>t r. \<exists>x. t = Fin x \<and> \<bar>x - r\<bar> \<le> 1 / 2 ^ 42) ts (offsets 10000)"
    unfolding o list_all2_map2 by (rule near)
  with v len h l g show ?thesis by blast
qed

lemma visited_window_60s:
  "\<exists>ts. visited64 3001 (Fin (- 60)) = Some ts \<and> length ts = 3000 \<and>
        hd ts = Fin (- 60) \<and> last ts = Fin (- 5764607521944649 / 288230376151711744) \<and>
        list_all (nle (Fin (- 60))) ts \<and>
        list_all2 (\<lambda>t r. \<exists>x. t = Fin x \<and> \<bar>x - r\<bar> \<le> 1 / 2 ^ 37) ts (butlast (offsets 60000))"
proof -
  define ts where "ts =
          progression (- 60) (2814749767107 / 140737488355328) 1399 @
          progression (- 4506414377136987 / 140737488355328) (5629499534213 / 281474976710656) 800 @
          progression (- 2254614563451787 / 140737488355328) (5629499534213 / 281474976710656) 400 @
          progression (- 1128714656609187 / 140737488355328) (5629499534213 / 281474976710656) 200 @
          progression (- 565764703187887 / 140737488355328) (45035996273705 / 2251799813685248) 100 @
          progression (- 1137158905908923 / 562949953421312) (45035996273705 / 2251799813685248) 50 @
          progression (- 1148417904975221 / 1125899906842624) (45035996273705 / 2251799813685248) 25 @
          progression (- 1170935903107817 / 2251799813685248) (45035996273705 / 2251799813685248) 13 @
          progression (- 146366987887413 / 562949953421312) (720575940379279 / 36028797018963968) 6 @
          progression (- 2522015791259379 / 18014398509481984) (1441151880758559 / 72057594037927936) 3 @
          [Fin (- 5764607522761839 / 72057594037927936), Fin (- 270215977625205 / 4503599627370496), Fin (- 2882303761244721 / 72057594037927936), Fin (- 5764607521944649 / 288230376151711744)]"
  have v: "visited64 3001 (Fin (- 60)) = Some ts"
    unfolding ts_def by (rule visited64_window_60s)
  have len: "length ts = 3000"
    by (simp add: ts_def length_progression)
  have h: "hd ts = Fin (- 60)"
    unfolding ts_def by (rule hd_progression) simp
  have l: "last ts = Fin (- 5764607521944649 / 288230376151711744)"
    by (simp add: ts_def)
  have g: "list_all (nle (Fin (- 60))) ts"
    by (simp add: ts_def list_all_progression)
  have "list_all2 (\<lambda>x k. \<exists>r. x = Fin r \<and> \<bar>r - (- 60 + of_nat k * 0.02)\<bar> \<le> 1 / 2 ^ 37)
          ts [0..<0 + length ts]"
    unfolding ts_def
    apply (rule near_append [where a = "- 60" and c = "0.02" and \<epsilon> = "1 / 2 ^ 37"])
     apply (rule near_progression [where a = "- 60" and c = "0.02" and \<epsilon> = "1 / 2 ^ 37"])
     apply (simp add: length_progression)
    apply (rule near_append [where a = "- 60" and c = "0.02" and \<epsilon> = "1 / 2 ^ 37"])
     apply (rule near_progression [where a = "- 60" and c = "0.02" and \<epsilon> = "1 / 2 ^ 37"])
     apply (simp add: length_progression)
    apply (rule near_append [where a = "- 60" and c = "0.02" and \<epsilon> = "1 / 2 ^ 37"])
     apply (rule near_progression [where a = "- 60" and c = "0.02" and \<epsilon> = "1 / 2 ^ 37"])
     apply (simp add: length_progression)
    apply (rule near_append [where a = "- 60" and c = "0.02" and \<epsilon> = "1 / 2 ^ 37"])
     apply (rule near_progression [where a = "- 60" and c = "0.02" and \<epsilon> = "1 / 2 ^ 37"])
     apply (simp add: length_progression)
    apply (rule near_append [where a = "- 60" and c = "0.02" and \<epsilon> = "1 / 2 ^ 37"])
     apply (rule near_progression [where a = "- 60" and c = "0.02" and \<epsilon> = "1 / 2 ^ 37"])
     apply (simp add: length_progression)
    apply (rule near_append [where a = "- 60" and c = "0.02" and \<epsilon> = "1 / 2 ^ 37"])
     apply (rule near_progression [where a = "- 60" and c = "0.02" and \<epsilon> = "1 / 2 ^ 37"])
     apply (simp add: length_progression)
    apply (rule near_append [where a = "- 60" and c = "0.02" and \<epsilon> = "1 / 2 ^ 37"])
     apply (rule near_progression [where a = "- 60" and c = "0.02" and \<epsilon> = "1 / 2 ^ 37"])
     apply (simp add: length_progression)
    apply (rule near_append [where a = "- 60" and c = "0.02" and \<epsilon> = "1 / 2 ^ 37"])
     apply (rule near_progression [where a = "- 60" and c = "0.02" and \<epsilon> = "1 / 2 ^ 37"])
     apply (simp add: length_progression)
    apply (rule near_append [where a = "- 60" and c = "0.02" and \<epsilon> = "1 / 2 ^ 37"])
     apply (rule near_progression [where a = "- 60" and c = "0.02" and \<epsilon> = "1 / 2 ^ 37"])
     apply (simp add: length_progression)
    apply (rule near_append [where a = "- 60" and c = "0.02" and \<epsilon> = "1 / 2 ^ 37"])
     apply (rule near_progression [where a = "- 60" and c = "0.02" and \<epsilon> = "1 / 2 ^ 37"])
     apply (simp add: length_progression)
    apply (rule near_Cons [where a = "- 60" and c = "0.02" and \<epsilon> = "1 / 2 ^ 37"])
     apply (simp add: length_progression)
    apply (rule near_Cons [where a = "- 60" and c = "0.02" and \<epsilon> = "1 / 2 ^ 37"])
     apply (simp add: length_progression)
    apply (rule near_Cons [where a = "- 60" and c = "0.02" and \<epsilon> = "1 / 2 ^ 37"])
     apply (simp add: length_progression)
    apply (rule near_Cons [where a = "- 60" and c = "0.02" and \<epsilon> = "1 / 2 ^ 37"])
     apply (simp add: length_progression)
    apply (rule near_Nil)
    done
  then have near: "list_all2 (\<lambda>x k. \<exists>r. x = Fin r \<and> \<bar>r - (- 60 + of_nat k * 0.02)\<bar> \<le> 1 / 2 ^ 37)
          ts [0..<3000]"
    unfolding len by (simp only: add_0)
  have o: "butlast (offsets 60000) = map (\<lambda>k. - 60 + of_nat k * 0.02) [0..<3000]"
  proof -
    have "butlast [0..<3001] = [0..<3000]"
      using upt_Suc_append [of 0 3000] by simp
    then show ?thesis
      by (simp add: offsets_def map_butlast [symmetric] del: upt_Suc)
  qed
  have "list_all2 (\<lambda>t r. \<exists>x. t = Fin x \<and> \<bar>x - r\<bar> \<le> 1 / 2 ^ 37) ts (butlast (offsets 60000))"
    unfolding o list_all2_map2 by (rule near)
  with v len h l g show ?thesis by blast
qed

subsection \<open>The sample loop on the full 10 s and 60 s windows\<close>

lemma list_all_nle_mono:
  "e' \<le> e \<Longrightarrow> list_all (nle (Fin e)) ts \<Longrightarrow> list_all (nle (Fin e')) ts"
proof (induction ts)
  case Nil
  then show ?case by simp
next
  case (Cons x xs)
  then show ?case by (cases x) simp_all
qed

lemma round64_20000: "round64 20000 = Fin 20000"
  by (simp add: round64_def quantize_def expo_def expoUp.simps pow2_def roundEven_def)

lemma round64_60000: "round64 60000 = Fin 60000"
  by (simp add: round64_def quantize_def expo_def expoUp.simps pow2_def roundEven_def)

lemma round64_minus_10: "round64 (- 10) = Fin (- 10)"
  by (simp add: round64_def quantize_def expo_def expoUp.simps pow2_def roundEven_def)

lemma round64_minus_60: "round64 (- 60) = Fin (- 60)"
  by (simp add: round64_def quantize_def expo_def expoUp.simps pow2_def roundEven_def)

lemma round64_20: "round64 20 = Fin 20"
  by (simp add: round64_def quantize_def expo_def expoUp.simps pow2_def roundEven_def)

lemma round64_60: "round64 60 = Fin 60"
  by (simp add: round64_def quantize_def expo_def expoUp.simps pow2_def roundEven_def)

lemma elapsedTime64_20s: "elapsedTime64 (st + 20000) st = Fin 20"
  by (simp add: elapsedTime64_def fsub64_def round64_20000 round64_20)

lemma elapsedTime64_60s: "elapsedTime64 (st + 60000) st = Fin 60"
  by (simp add: elapsedTime64_def fsub64_def round64_60000 round64_60)

lemma generate64_window_10s:
  "\<exists>ts. generate64 msin (st + 20000) st 10000 amp =
          Some (map (sample64 msin (st + 20000) st amp) ts) \<and>
        length ts = 501 \<and> hd ts = Fin (- 10) \<and>
        last ts = Fin (- 17959 / 144115188075855872) \<and>
        list_all2 (\<lambda>t r. \<exists>x. t = Fin x \<and> \<bar>x - r\<bar> \<le> 1 / 2 ^ 42) ts (offsets 10000)"
proof -
  from visited_window_10s obtain ts where
    v: "visited64 502 (Fin (- 10)) = Some ts" and len: "length ts = 501"
    and h: "hd ts = Fin (- 10)" and l: "last ts = Fin (- 17959 / 144115188075855872)"
    and g: "list_all (nle (Fin (- 10))) ts"
    and near: "list_all2 (\<lambda>t r. \<exists>x. t = Fin x \<and> \<bar>x - r\<bar> \<le> 1 / 2 ^ 42) ts (offsets 10000)"
    by blast
  have "list_all (nle (Fin (- 20))) ts"
    using list_all_nle_mono [OF _ g, of "- 20"] by simp
  then have pushed: "concat (map (sampleAt64 msin (st + 20000) st amp) ts) =
                     map (sample64 msin (st + 20000) st amp) ts"
    using sampleAt64_pushed [of "st + 20000" st ts msin amp] by (simp add: elapsedTime64_20s)
  have "generate64 msin (st + 20000) st 10000 amp =
          Some (map (sample64 msin (st + 20000) st amp) ts)"
    using visited64_sound [OF v, of msin "st + 20000" st amp "[]"] pushed
    by (simp add: generate64_def round64_minus_10)
  with len h l near show ?thesis by blast
qed

lemma generate64_window_60s:
  "\<exists>ts. generate64 msin ct st' 60000 amp =
          Some (concat (map (sampleAt64 msin ct st' amp) ts)) \<and>
        generate64 msin (st + 60000) st 60000 amp =
          Some (map (sample64 msin (st + 60000) st amp) ts) \<and>
        length ts = 3000 \<and> hd ts = Fin (- 60) \<and>
        last ts = Fin (- 5764607521944649 / 288230376151711744) \<and>
        list_all2 (\<lambda>t r. \<exists>x. t = Fin x \<and> \<bar>x - r\<bar> \<le> 1 / 2 ^ 37) ts (butlast (offsets 60000))"
proof -
  from visited_window_60s obtain ts where
    v: "visited64 3001 (Fin (- 60)) = Some ts" and len: "length ts = 3000"
    and h: "hd ts = Fin (- 60)" and l: "last ts = Fin (- 5764607521944649 / 288230376151711744)"
    and g: "list_all (nle (Fin (- 60))) ts"
    and near: "list_all2 (\<lambda>t r. \<exists>x. t = Fin x \<and> \<bar>x - r\<bar> \<le> 1 / 2 ^ 37) ts
                 (butlast (offsets 60000))"
    by blast
  have pushed: "concat (map (sampleAt64 msin (st + 60000) st amp) ts) =
                     map (sample64 msin (st + 60000) st amp) ts"
    using sampleAt64_pushed [of "st + 60000" st ts msin amp] g by (simp add: elapsedTime64_60s)
  have "generate64 msin (st + 60000) st 60000 amp =
          Some (map (sample64 msin (st + 60000) st amp) ts)"
    using visited64_sound [OF v, of msin "st + 60000" st amp "[]"] pushed
    by (simp add: generate64_def round64_minus_60)
  moreover have "generate64 msin ct st' 60000 amp =
          Some (concat (map (sampleAt64 msin ct st' amp) ts))"
    using visited64_sound [OF v, of msin ct st' amp "[]"]
    by (simp add: generate64_def round64_minus_60)
  ultimately show ?thesis using len h l near by blast
qed

lemma last_timestamp_10s:
  "fadd64 (Fin 20000) (fmul64 (Fin (- 17959 / 144115188075855872)) (Fin 1000)) =
   Fin (2748779069439983 / 137438953472)"
  by (simp add: round64_def quantize_def expo_def expoUp.simps pow2_def roundEven_def)

subsection \<open>The error of one rounding\<close>

lemma pow2_powi: "pow2 e = 2 powi e"
  by (simp add: pow2_def power_int_def inverse_eq_divide power_one_over)


lemma pow2_mono: "a \<le> b \<Longrightarrow> pow2 a \<le> pow2 b"
  by (simp add: pow2_powi power_int_increasing)

lemma pow2_strict_mono: "a < b \<Longrightarrow> pow2 a < pow2 b"
  by (simp add: pow2_powi power_int_strict_increasing)


lemma pow2_less_D: "pow2 a < pow2 b \<Longrightarrow> a < b"
  using pow2_mono [of b a] by (cases "a < b") simp_all

lemma binade:
  assumes "0 < x"
  shows "\<exists>j. pow2 j \<le> x \<and> x < pow2 (j + 1)"
proof -
  let ?j = "\<lfloor>log 2 x\<rfloor>"
  have lo: "of_int ?j \<le> log 2 x" by simp
  have hi: "log 2 x < of_int (?j + 1)" by simp
  have "2 powr of_int ?j \<le> 2 powr log 2 x"
    using lo by (simp add: powr_mono)
  then have 1: "2 powr of_int ?j \<le> x"
    using assms by simp
  have "2 powr log 2 x < 2 powr of_int (?j + 1)"
    using hi by (intro powr_less_mono) simp_all
  then have 2: "x < 2 powr of_int (?j + 1)"
    using assms by simp
  have "pow2 ?j \<le> x" and "x < pow2 (?j + 1)"
    using 1 2 by (simp_all only: pow2_powi powr_real_of_int' [symmetric, of 2, simplified])
  then show ?thesis by blast
qed


lemma roundEven_nonneg: "0 \<le> z \<Longrightarrow> 0 \<le> roundEven z"
  unfolding roundEven_def by (simp; linarith)

lemma roundEven_le: "z \<le> of_int N \<Longrightarrow> roundEven z \<le> N"
proof -
  assume z: "z \<le> of_int N"
  then have f: "\<lfloor>z\<rfloor> \<le> N" by (simp add: floor_le_iff) 
  show ?thesis
  proof (cases "z = of_int \<lfloor>z\<rfloor>")
    case True
    then have "z - of_int \<lfloor>z\<rfloor> < 1 / 2" by simp
    then show ?thesis using f by (simp add: roundEven_def)
  next
    case False
    moreover have "of_int \<lfloor>z\<rfloor> \<le> z" by (rule of_int_floor_le)
    ultimately have "of_int \<lfloor>z\<rfloor> < z" by linarith
    with z have "(of_int \<lfloor>z\<rfloor> :: real) < of_int N" by linarith
    then have "\<lfloor>z\<rfloor> < N" by simp
    then show ?thesis by (simp add: roundEven_def)
  qed
qed


lemma quantize_nonneg: "0 \<le> a \<Longrightarrow> 0 \<le> quantize e a"
  using roundEven_nonneg [of "a / pow2 e"] pow2_pos [of e] by (simp add: quantize_def)


lemma round64_bounded:
  assumes "\<bar>x\<bar> \<le> 10"
  shows "\<exists>y. round64 x = Fin y \<and> \<bar>y\<bar> \<le> 10"
proof (cases "x = 0")
  case True
  then show ?thesis by (simp add: round64_def)
next
  case False
  let ?a = "\<bar>x\<bar>"
  have a: "0 < ?a" using False by simp
  from binade [OF a] obtain j where j: "pow2 j \<le> ?a" "?a < pow2 (j + 1)" by blast
  have e: "expo ?a = j" using j by (rule expo_pow2)
  let ?e = "max (j - 52) (- 1074)"
  let ?q = "quantize ?e ?a"
  have "pow2 j < pow2 4" using j(1) assms by (simp add: pow2_def)
  then have "j < 4" by (rule pow2_less_D)
  then have e0: "?e \<le> 0" by simp
  then have p: "pow2 ?e = 1 / 2 ^ nat (- ?e)"
    by (cases "?e = 0") (simp_all add: pow2_def)
  have "?a / pow2 ?e \<le> of_int (10 * 2 ^ nat (- ?e))"
    unfolding p using assms by simp
  then have "roundEven (?a / pow2 ?e) \<le> 10 * 2 ^ nat (- ?e)"
    by (rule roundEven_le)
  then have "(of_int (roundEven (?a / pow2 ?e)) :: real) \<le> of_int (10 * 2 ^ nat (- ?e))"
    by (simp only: of_int_le_iff)
  then have "?q \<le> of_int (10 * 2 ^ nat (- ?e)) * pow2 ?e"
    unfolding quantize_def using pow2_pos [of ?e] by (intro mult_right_mono) simp_all
  also have "\<dots> = 10" unfolding p by simp
  finally have q10: "?q \<le> 10" .
  have "(10 :: real) < pow2 1024"
  proof -
    have "(10 :: real) < pow2 4" by (simp add: pow2_def)
    also have "\<dots> < pow2 1024" by (rule pow2_strict_mono) simp
    finally show ?thesis .
  qed
  with q10 have small: "\<not> pow2 1024 \<le> ?q" by linarith
  have q0: "0 \<le> ?q" by (rule quantize_nonneg) simp
  have r: "round64 x = Fin (sgn x * ?q)"
    using False small by (simp add: round64_def e)
  have s1: "\<bar>sgn x\<bar> = 1" using False by (simp add: abs_sgn_eq)
  have "\<bar>sgn x * ?q\<bar> = \<bar>sgn x\<bar> * \<bar>?q\<bar>" by (rule abs_mult)
  also have "\<dots> = ?q" unfolding s1 using q0 by simp
  finally have "\<bar>sgn x * ?q\<bar> \<le> 10" using q10 by linarith
  with r show ?thesis by blast
qed

subsection \<open>The sub-tick loop in binary64\<close>













subsection \<open>The clamp in binary64\<close>

lemma clampY64_id:
  assumes "\<bar>amplitude\<bar> \<le> 10" and "\<forall>x. \<bar>msin x\<bar> \<le> 1"
  shows "clampY64 (signal64 msin amplitude phase t) = signal64 msin amplitude phase t"
proof (cases "fdiv64 (fmul64 (fmul64 (Fin 2) (Fin Math_PI)) (fadd64 t phase)) (Fin 2)")
  case (Fin x)
  have "\<bar>amplitude * msin x\<bar> = \<bar>amplitude\<bar> * \<bar>msin x\<bar>" by (rule abs_mult)
  also have "\<dots> \<le> 10 * 1"
    using assms by (intro mult_mono) simp_all
  finally have "\<bar>amplitude * msin x\<bar> \<le> 10" by simp
  from round64_bounded [OF this] obtain y where
    y: "round64 (amplitude * msin x) = Fin y" and b: "\<bar>y\<bar> \<le> 10" by blast
  have "signal64 msin amplitude phase t = Fin y"
    unfolding signal64_def Fin using y by simp
  moreover have "- 10 \<le> y" and "y \<le> 10" using b by linarith+
  ultimately show ?thesis
    by (auto simp add: clampY64_def Y_AXIS_MIN_def Y_AXIS_MAX_def)
next
  case PInf
  have "signal64 msin amplitude phase t = NaN"
    unfolding signal64_def PInf by simp
  then show ?thesis by (simp add: clampY64_def)
next
  case NInf
  have "signal64 msin amplitude phase t = NaN"
    unfolding signal64_def NInf by simp
  then show ?thesis by (simp add: clampY64_def)
next
  case NaN
  have "signal64 msin amplitude phase t = NaN"
    unfolding signal64_def NaN by simp
  then show ?thesis by (simp add: clampY64_def)
qed

lemma sampleAt64_unclamped_eq:
  assumes "\<bar>amplitude\<bar> \<le> 10" and "\<forall>x. \<bar>msin x\<bar> \<le> 1"
  shows "sampleAt64 msin ct st amplitude t = sampleAt64_unclamped msin ct st amplitude t"
  using clampY64_id [OF assms]
  by (simp add: sampleAt64_def sampleAt64_unclamped_def sample64_def)

lemma sampleLoop64_le_unclamped:
  assumes "sampleLoop64 msin ct st amp t newData = Some r"
  shows "\<bar>amp\<bar> \<le> 10 \<and> (\<forall>x. \<bar>msin x\<bar> \<le> 1) \<longrightarrow>
         sampleLoop64_unclamped msin ct st amp t newData = Some r"
proof (rule sampleLoop64.raw_induct
    [where P = "\<lambda>msin ct st amp t newData r.
         \<bar>amp\<bar> \<le> 10 \<and> (\<forall>x. \<bar>msin x\<bar> \<le> 1) \<longrightarrow>
         sampleLoop64_unclamped msin ct st amp t newData = Some r",
     OF _ assms])
  fix f msin ct st amp t newData r
  assume IH: "\<And>msin ct st amp t newData r. f msin ct st amp t newData = Some r \<Longrightarrow>
                \<bar>amp\<bar> \<le> 10 \<and> (\<forall>x. \<bar>msin x\<bar> \<le> 1) \<longrightarrow>
                sampleLoop64_unclamped msin ct st amp t newData = Some r"
    and eq: "(if nle t (Fin 0)
              then f msin ct st amp (fadd64 t (round64 (2 / 100)))
                     (newData @ sampleAt64 msin ct st amp t)
              else Some newData) = Some r"
  show "\<bar>amp\<bar> \<le> 10 \<and> (\<forall>x. \<bar>msin x\<bar> \<le> 1) \<longrightarrow>
        sampleLoop64_unclamped msin ct st amp t newData = Some r"
  proof
    assume h: "\<bar>amp\<bar> \<le> 10 \<and> (\<forall>x. \<bar>msin x\<bar> \<le> 1)"
    show "sampleLoop64_unclamped msin ct st amp t newData = Some r"
    proof (cases "nle t (Fin 0)")
      case True
      with eq have "f msin ct st amp (fadd64 t (round64 (2 / 100)))
                      (newData @ sampleAt64 msin ct st amp t) = Some r"
        by simp
      from IH [OF this] h have
        "sampleLoop64_unclamped msin ct st amp (fadd64 t (round64 (2 / 100)))
           (newData @ sampleAt64 msin ct st amp t) = Some r"
        by blast
      then show ?thesis
        using True h sampleAt64_unclamped_eq [of amp msin ct st t]
        by (subst sampleLoop64_unclamped.simps) simp
    next
      case False
      with eq show ?thesis by (subst sampleLoop64_unclamped.simps) simp
    qed
  qed
qed

lemma sampleLoop64_unclamped_le:
  assumes "sampleLoop64_unclamped msin ct st amp t newData = Some r"
  shows "\<bar>amp\<bar> \<le> 10 \<and> (\<forall>x. \<bar>msin x\<bar> \<le> 1) \<longrightarrow>
         sampleLoop64 msin ct st amp t newData = Some r"
proof (rule sampleLoop64_unclamped.raw_induct
    [where P = "\<lambda>msin ct st amp t newData r.
         \<bar>amp\<bar> \<le> 10 \<and> (\<forall>x. \<bar>msin x\<bar> \<le> 1) \<longrightarrow>
         sampleLoop64 msin ct st amp t newData = Some r",
     OF _ assms])
  fix f msin ct st amp t newData r
  assume IH: "\<And>msin ct st amp t newData r. f msin ct st amp t newData = Some r \<Longrightarrow>
                \<bar>amp\<bar> \<le> 10 \<and> (\<forall>x. \<bar>msin x\<bar> \<le> 1) \<longrightarrow>
                sampleLoop64 msin ct st amp t newData = Some r"
    and eq: "(if nle t (Fin 0)
              then f msin ct st amp (fadd64 t (round64 (2 / 100)))
                     (newData @ sampleAt64_unclamped msin ct st amp t)
              else Some newData) = Some r"
  show "\<bar>amp\<bar> \<le> 10 \<and> (\<forall>x. \<bar>msin x\<bar> \<le> 1) \<longrightarrow>
        sampleLoop64 msin ct st amp t newData = Some r"
  proof
    assume h: "\<bar>amp\<bar> \<le> 10 \<and> (\<forall>x. \<bar>msin x\<bar> \<le> 1)"
    show "sampleLoop64 msin ct st amp t newData = Some r"
    proof (cases "nle t (Fin 0)")
      case True
      with eq have "f msin ct st amp (fadd64 t (round64 (2 / 100)))
                      (newData @ sampleAt64_unclamped msin ct st amp t) = Some r"
        by simp
      from IH [OF this] h have
        "sampleLoop64 msin ct st amp (fadd64 t (round64 (2 / 100)))
           (newData @ sampleAt64_unclamped msin ct st amp t) = Some r"
        by blast
      then show ?thesis
        using True h sampleAt64_unclamped_eq [of amp msin ct st t]
        by (subst sampleLoop64.simps) simp
    next
      case False
      with eq show ?thesis by (subst sampleLoop64.simps) simp
    qed
  qed
qed

lemma generate64_unclamped_eq:
  assumes "\<bar>amp\<bar> \<le> 10" and "\<forall>x. \<bar>msin x\<bar> \<le> 1"
  shows "generate64 msin ct st tw amp = generate64_unclamped msin ct st tw amp"
proof (cases "generate64 msin ct st tw amp")
  case None
  show ?thesis
  proof (cases "generate64_unclamped msin ct st tw amp")
    case None
    with \<open>generate64 msin ct st tw amp = None\<close> show ?thesis by simp
  next
    case (Some r)
    then have "generate64 msin ct st tw amp = Some r"
      using sampleLoop64_unclamped_le [of msin ct st amp _ "[]" r] assms
      by (simp add: generate64_def generate64_unclamped_def)
    with None show ?thesis by simp
  qed
next
  case (Some r)
  then have "generate64_unclamped msin ct st tw amp = Some r"
    using sampleLoop64_le_unclamped [of msin ct st amp _ "[]" r] assms
    by (simp add: generate64_def generate64_unclamped_def)
  with Some show ?thesis by simp
qed

lemma clamp64_product:
  assumes "\<bar>amplitude\<bar> \<le> 10" and "\<forall>x. \<bar>msin x\<bar> \<le> 1"
  shows "Math_max (Fin (- 10)) (Math_min (Fin 10) (fmul64 (Fin amplitude) (Math_sin msin z))) =
         fmul64 (Fin amplitude) (Math_sin msin z)"
proof (cases z)
  case (Fin x)
  have "\<bar>amplitude * msin x\<bar> = \<bar>amplitude\<bar> * \<bar>msin x\<bar>" by (rule abs_mult)
  also have "\<dots> \<le> 10 * 1"
    using assms by (intro mult_mono) simp_all
  finally have "\<bar>amplitude * msin x\<bar> \<le> 10" by simp
  from round64_bounded [OF this] obtain y where
    y: "round64 (amplitude * msin x) = Fin y" and b: "\<bar>y\<bar> \<le> 10" by blast
  have "- 10 \<le> y" and "y \<le> 10" using b by linarith+
  then show ?thesis
    unfolding Fin using y by auto
qed simp_all

section \<open>The claims\<close>

text \<open>
  C1. The spec's offsets are \<open>offsets timeWindow\<close>: from \<open>- timeWindow / 1000\<close> up to 0 in
  steps of 0.02, which for the 60 s window are 3001 offsets, the last of them 0. The code
  accumulates \<open>t\<close> by rounded additions, and on the 60 s window its loop runs the body
  for 3000 values of \<open>t\<close> only, at every clock value: they are within \<open>2^-37\<close> of the
  first 3000 offsets, the last is about \<open>-0.02\<close>, the next sum is above 0, and the body
  never runs for the offset 0. With 60 s elapsed every one of the 3000 values passes the
  test \<^verbatim>\<open>t >= -elapsedTime\<close>, and the frame has 3000 samples where the spec's offsets
  give 3001; each sample has the timestamp \<open>currentTime + t * 1000\<close> and the clamped
  value of the source, with every operation rounded.
\<close>

theorem sample_loop_60s_window_lacks_offset_zero:
  "\<exists>ts. generate64 msin currentTime startTime' 60000 amplitude =
          Some (concat (map (sampleAt64 msin currentTime startTime' amplitude) ts)) \<and>
        generate64 msin (startTime + 60000) startTime 60000 amplitude =
          Some (map (\<lambda>t. (fadd64 (Fin (startTime + 60000)) (fmul64 t (Fin 1000)),
                          Math_max (Fin (- 10)) (Math_min (Fin 10)
                            (fmul64 (Fin amplitude)
                               (Math_sin msin
                                  (fdiv64 (fmul64 (fmul64 (Fin 2) (Fin Math_PI))
                                             (fadd64 t (Fin 60))) (Fin 2))))))) ts) \<and>
        length ts = 3000 \<and> hd ts = Fin (- 60) \<and>
        last ts = Fin (- 5764607521944649 / 288230376151711744) \<and>
        list_all2 (\<lambda>t r. \<exists>x. t = Fin x \<and> \<bar>x - r\<bar> \<le> 1 / 2 ^ 37) ts (butlast (offsets 60000)) \<and>
        offsets 60000 = map (\<lambda>k. - 60 + of_nat k * 0.02) [0..<3001] \<and>
        length (offsets 60000) = 3001 \<and> last (offsets 60000) = 0"
proof -
  have s: "sample64 msin (startTime + 60000) startTime amplitude =
           (\<lambda>t. (fadd64 (Fin (startTime + 60000)) (fmul64 t (Fin 1000)),
                  Math_max (Fin (- 10)) (Math_min (Fin 10)
                    (fmul64 (Fin amplitude)
                       (Math_sin msin
                          (fdiv64 (fmul64 (fmul64 (Fin 2) (Fin Math_PI))
                                     (fadd64 t (Fin 60))) (Fin 2)))))))"
    by (rule ext)
       (simp only: sample64_def clampY64_def signal64_def Y_AXIS_MIN_def Y_AXIS_MAX_def
          elapsedTime64_60s)
  have o: "offsets 60000 = map (\<lambda>k. - 60 + of_nat k * 0.02) [0..<3001]"
    by (simp add: offsets_def del: upt_Suc)
  have len: "length (offsets 60000) = 3001"
    by (simp add: o del: upt_Suc)
  have l: "last (offsets 60000) = 0"
    by (simp add: o last_map del: upt_Suc)
  from generate64_window_60s [of msin currentTime startTime' amplitude startTime] o len l
  show ?thesis
    unfolding s by blast
qed

text \<open>
  C2, as amended. With \<open>timeWindow = 10000\<close>, \<open>amplitude = 10\<close> and an elapsed time of
  20 s the loop returns, and the frame has exactly 501 samples: one for each of the 501
  values of \<open>t\<close> that the loop visits, in order, each with the timestamp
  \<open>currentTime + t * 1000\<close> and the clamped value of the source, every operation rounded.
  The first value of \<open>t\<close> is \<open>-10\<close>, and the \<open>k\<close>-th is within \<open>2^-42\<close> (about
  \<open>2.3e-13\<close>) of the offset \<open>-10 + 0.02 k\<close> of the spec, for \<open>k = 0, \<dots>, 500\<close>: the samples
  cover the full window \<open>[-10, 0]\<close> in steps of 0.02 s.
\<close>

theorem full_window_501_samples:
  "\<exists>ts. generate64 msin (startTime + 20000) startTime 10000 10 =
          Some (map (\<lambda>t. (fadd64 (Fin (startTime + 20000)) (fmul64 t (Fin 1000)),
                          Math_max (Fin (- 10)) (Math_min (Fin 10)
                            (fmul64 (Fin 10)
                               (Math_sin msin
                                  (fdiv64 (fmul64 (fmul64 (Fin 2) (Fin Math_PI))
                                             (fadd64 t (Fin 20))) (Fin 2))))))) ts) \<and>
        length ts = 501 \<and> hd ts = Fin (- 10) \<and>
        list_all2 (\<lambda>t r. \<exists>x. t = Fin x \<and> \<bar>x - r\<bar> \<le> 1 / 2 ^ 42) ts (offsets 10000) \<and>
        offsets 10000 = map (\<lambda>k. - 10 + of_nat k * 0.02) [0..<501]"
proof -
  have s: "sample64 msin (startTime + 20000) startTime 10 =
           (\<lambda>t. (fadd64 (Fin (startTime + 20000)) (fmul64 t (Fin 1000)),
                  Math_max (Fin (- 10)) (Math_min (Fin 10)
                    (fmul64 (Fin 10)
                       (Math_sin msin
                          (fdiv64 (fmul64 (fmul64 (Fin 2) (Fin Math_PI))
                                     (fadd64 t (Fin 20))) (Fin 2)))))))"
    by (rule ext)
       (simp only: sample64_def clampY64_def signal64_def Y_AXIS_MIN_def Y_AXIS_MAX_def
          elapsedTime64_20s)
  from generate64_window_10s [of msin startTime 10] offsets_10000 show ?thesis
    unfolding s by blast
qed

text \<open>
  C2 as stated fails in its last part: the loop does not reach \<open>t = 0\<close>. Started at the
  clock value 0 and run at 20000, the frame has 501 samples, but the last value of \<open>t\<close>
  that the loop visits is \<open>-17959 / 2^57\<close> (about \<open>-1.25e-13\<close>), not 0, and the last
  sample has the timestamp \<open>19999.999999999876\<close>, not \<open>20000\<close>; this holds whatever the
  host's sine is.
\<close>

theorem full_window_last_offset_counterexample:
  "\<forall>msin.
     map_option length (generate64 msin 20000 0 10000 10) = Some 501 \<and>
     map_option (fst \<circ> last) (generate64 msin 20000 0 10000 10) =
       Some (Fin (2748779069439983 / 137438953472)) \<and>
     map_option (fst \<circ> last) (generate64 msin 20000 0 10000 10) \<noteq> Some (Fin 20000) \<and>
     map_option last (visited64 502 (Fin (- 10))) = Some (Fin (- 17959 / 144115188075855872)) \<and>
     map_option last (visited64 502 (Fin (- 10))) \<noteq> Some (Fin 0)"
proof
  fix msin
  from visited_window_10s obtain vs where
    v: "visited64 502 (Fin (- 10)) = Some vs"
    and lv: "last vs = Fin (- 17959 / 144115188075855872)"
    by blast
  from generate64_window_10s [of msin 0 10] obtain ts where
    g: "generate64 msin 20000 0 10000 10 = Some (map (sample64 msin 20000 0 10) ts)"
    and len: "length ts = 501" and l: "last ts = Fin (- 17959 / 144115188075855872)"
    by auto
  from len have ne: "ts \<noteq> []" by auto
  have "fst (last (map (sample64 msin 20000 0 10) ts)) =
        fst (sample64 msin 20000 0 10 (last ts))"
    using ne by (simp add: last_map)
  also have "\<dots> = Fin (2748779069439983 / 137438953472)"
    unfolding l sample64_def fst_conv by (rule last_timestamp_10s)
  finally have "fst (last (map (sample64 msin 20000 0 10) ts)) =
        Fin (2748779069439983 / 137438953472)" .
  with g len v lv show
    "map_option length (generate64 msin 20000 0 10000 10) = Some 501 \<and>
     map_option (fst \<circ> last) (generate64 msin 20000 0 10000 10) =
       Some (Fin (2748779069439983 / 137438953472)) \<and>
     map_option (fst \<circ> last) (generate64 msin 20000 0 10000 10) \<noteq> Some (Fin 20000) \<and>
     map_option last (visited64 502 (Fin (- 10))) = Some (Fin (- 17959 / 144115188075855872)) \<and>
     map_option last (visited64 502 (Fin (- 10))) \<noteq> Some (Fin 0)"
    by simp
qed

text \<open>
  C3, as amended. The clock reference \<^verbatim>\<open>startTime.current\<close> is fixed once, at the first
  render of the component: after any sequence of events (changes of any Configuration
  field with the re-initialization of the pipeline they cause, frames, resizes) it is
  still the clock value \<open>t0\<close> of the mount; and every frame generates its samples with
  the elapsed time \<open>(now - t0) / 1000\<close>.
\<close>

theorem start_time_fixed_at_mount:
  assumes "run tza W H evs (mount t0) = Some a"
  shows "startTime_ref a = Some t0 \<and>
         (\<forall>now a'. frame_scheduled a \<and> handle tza W H now AnimationFrame a = Some a' \<longrightarrow>
            dataRef a' = generate now t0 (s_timeWindow a) (s_amplitude a)) \<and>
         elapsedTime now t0 = (now - t0) / 1000"
proof -
  have st: "startTime_ref a = Some t0"
    using run_keeps [OF assms mount_startTime] .
  then show ?thesis
    using frame_phase [of tza W H _ a _ t0] by (simp add: elapsedTime_def)
qed

theorem start_time_fixed_at_mount_witness:
  "run utc 500 30 [(5000, SetAmplitude 4)] (mount 0) =
     Some \<lparr>s_timeWindow = 10000, s_amplitude = 4, s_showXSubScale = False,
           s_showYSubScale = False, s_xScaleDensity = 3, s_yScaleDensity = 3,
           startTime_ref = Some 0, dataRef = [], chart_xAxis = Some (- 10000, 0),
           chart_inits = 2, frame_scheduled = True\<rparr> \<and>
   startTime_ref
     \<lparr>s_timeWindow = 10000, s_amplitude = 4, s_showXSubScale = False,
      s_showYSubScale = False, s_xScaleDensity = 3, s_yScaleDensity = 3,
      startTime_ref = Some 0, dataRef = [], chart_xAxis = Some (- 10000, 0),
      chart_inits = 2, frame_scheduled = True\<rparr> = Some (0 :: real)"
proof -
  have r: "run utc 500 30 [(5000, SetAmplitude 4)] (mount 0) =
     Some \<lparr>s_timeWindow = 10000, s_amplitude = 4, s_showXSubScale = False,
           s_showYSubScale = False, s_xScaleDensity = 3, s_yScaleDensity = 3,
           startTime_ref = Some 0, dataRef = [], chart_xAxis = Some (- 10000, 0),
           chart_inits = 2, frame_scheduled = True\<rparr>"
    by (simp add: mount_def rerender_def effectSetup_def effectCleanup_def render_def
        unmounted_def useRef_def)
  from start_time_fixed_at_mount [OF r] r show ?thesis by simp
qed

text \<open>
  C3 as stated fails: the component is mounted at the clock value 0 and the amplitude is
  changed at 5000. The pipeline is initialized again (second call of \<^verbatim>\<open>echarts.init\<close>),
  but \<^verbatim>\<open>startTime.current\<close> is still 0, not 5000.
\<close>

theorem start_time_not_reset_counterexample:
  "map_option chart_inits (run utc 500 30 [(5000, SetAmplitude 4)] (mount 0)) = Some 2 \<and>
   map_option startTime_ref (run utc 500 30 [(5000, SetAmplitude 4)] (mount 0)) = Some (Some 0) \<and>
   map_option startTime_ref (run utc 500 30 [(5000, SetAmplitude 4)] (mount 0)) \<noteq> Some (Some 5000)"
  by (simp add: mount_def rerender_def effectSetup_def effectCleanup_def render_def
        unmounted_def useRef_def)





text \<open>
  C6. On every redraw of the overlay (with a density that is not negative), the last
  two texts drawn are the badges: \<^verbatim>\<open>[\<close> followed by the time-of-day string of
  \<open>now - timeWindow\<close>, at \<open>x = 4\<close>, and the time-of-day string of \<open>now\<close> followed by
  \<^verbatim>\<open>]\<close>, at \<open>x = W - 4\<close>. Neither string depends on the width, on the scroll offset or
  on the sub-scale settings: they are functions of \<open>now\<close>, \<open>timeWindow\<close> and the time
  zone only.
\<close>

theorem badges_show_window:
  assumes "0 \<le> d"
  shows "\<exists>labels. map_option texts (drawTimeAxis tza tw sx d now W H) =
           Some (labels @ [(''['' @ timeStr tza (newDate (now - tw)), 4, 20),
                           (timeStr tza (newDate now) @ '']'', W - 4, 20)]) \<and>
           length labels \<le> 7"
proof -
  from drawTimeAxis_returns [OF assms] obtain cmds
    where c: "drawTimeAxis tza tw sx d now W H = Some cmds" by blast
  have "length (filter (\<lambda>i. 0 \<le> tickX now W i \<and> tickX now W i \<le> W) [0..<7]) \<le> length [0..<7]"
    by (rule length_filter_le)
  then show ?thesis
    using drawTimeAxis_texts [OF c] c by simp
qed

theorem badges_show_window_witness:
  "\<exists>labels. map_option texts (drawTimeAxis utc 10000 True 3 100500 500 30) =
     Some (labels @ [(''[00:01:30.50'', 4, 20), (''00:01:40.50]'', 496, 20)]) \<and>
     length labels \<le> 7"
  using badges_show_window [of 3 utc 10000 True 100500 500 30]
  by (simp add: timeStr_utc trunc_def padStart_2 padStart_3 take_2 natToString.simps digitChar_def)




text \<open>
  C8. For every density text input, with \<open>d\<close> the committed value before the event: the
  empty string commits 0 at once, on the change event; a string that \<^verbatim>\<open>parseInt\<close> does
  not read as a number leaves the committed value as it is; a string that it reads as
  \<open>n\<close> commits \<open>n\<close> clamped to \<open>[0, 6]\<close> on the change event. A blur with the text \<open>w\<close>
  in the input commits 0 when \<open>w\<close> is not a number or is negative, commits 6 when it is
  above 6, and leaves the committed value as it is otherwise; so a blur that follows a
  change leaves a committed value in \<open>[0, 6]\<close>. Typing \<^verbatim>\<open>9\<close> and blurring commits 6 and
  typing \<^verbatim>\<open>-3\<close> and blurring commits 0, both when the input still holds the typed text
  and when it holds the committed value that the controlled input shows; a blur alone
  on \<^verbatim>\<open>9\<close> turns a committed 3 into 6, on \<^verbatim>\<open>-3\<close> or on \<^verbatim>\<open>abc\<close> into 0, and on \<^verbatim>\<open>4\<close>
  leaves it 3. Both handlers are total: there is no error result.
\<close>

theorem density_input_clamped:
  "handleDensityChange [] d = 0 \<and>
   (v \<noteq> [] \<and> parseInt v = None \<longrightarrow> handleDensityChange v d = d) \<and>
   (\<forall>n. parseInt v = Some n \<longrightarrow>
        handleDensityChange v d = max 0 (min 6 n) \<and>
        0 \<le> handleDensityChange v d \<and> handleDensityChange v d \<le> 6) \<and>
   (parseInt w = None \<longrightarrow> onBlur w d = 0) \<and>
   (\<forall>n. parseInt w = Some n \<longrightarrow>
        onBlur w d = (if n < 0 then 0 else if n > 6 then 6 else d)) \<and>
   (0 \<le> d \<and> d \<le> 6 \<longrightarrow>
        0 \<le> onBlur w (handleDensityChange v d) \<and> onBlur w (handleDensityChange v d) \<le> 6) \<and>
   onBlur (utf16 ''9'') (handleDensityChange (utf16 ''9'') d) = 6 \<and>
   onBlur (utf16 ''6'') (handleDensityChange (utf16 ''9'') d) = 6 \<and>
   onBlur (utf16 ''-3'') (handleDensityChange (utf16 ''-3'') d) = 0 \<and>
   onBlur (utf16 ''0'') (handleDensityChange (utf16 ''-3'') d) = 0 \<and>
   onBlur (utf16 ''9'') 3 = 6 \<and> onBlur (utf16 ''-3'') 3 = 0 \<and>
   onBlur (utf16 ''abc'') 3 = 0 \<and> onBlur (utf16 ''4'') 3 = 3 \<and>
   handleDensityChange (utf16 ''abc'') 3 = 3 \<and> handleDensityChange (utf16 ''4'') 3 = 4 \<and>
   handleDensityChange (160 # utf16 ''5'') 3 = 5"
proof -
  have empty: "handleDensityChange [] d = 0"
    by (simp add: handleDensityChange_def)
  have ignored: "v \<noteq> [] \<and> parseInt v = None \<longrightarrow> handleDensityChange v d = d"
    by (simp add: handleDensityChange_def)
  have parsed: "\<forall>n. parseInt v = Some n \<longrightarrow>
        handleDensityChange v d = max 0 (min 6 n) \<and>
        0 \<le> handleDensityChange v d \<and> handleDensityChange v d \<le> 6"
    by (auto simp add: handleDensityChange_def parseInt_empty)
  have blur_nan: "parseInt w = None \<longrightarrow> onBlur w d = 0"
    by (simp add: onBlur_def)
  have blur_num: "\<forall>n. parseInt w = Some n \<longrightarrow>
        onBlur w d = (if n < 0 then 0 else if n > 6 then 6 else d)"
    by (simp add: onBlur_def)
  have blur: "0 \<le> d \<and> d \<le> 6 \<longrightarrow>
        0 \<le> onBlur w (handleDensityChange v d) \<and> onBlur w (handleDensityChange v d) \<le> 6"
    using handleDensityChange_range [of d v] onBlur_range [of "handleDensityChange v d" w]
    by blast
  have nine: "handleDensityChange (utf16 ''9'') d = 6"
    by (simp add: handleDensityChange_def parseInt_9 utf16_nonempty)
  have minus: "handleDensityChange (utf16 ''-3'') d = 0"
    by (simp add: handleDensityChange_def parseInt_minus3 utf16_nonempty)
  have b9: "onBlur (utf16 ''9'') 6 = 6" and b6: "onBlur (utf16 ''6'') 6 = 6"
    by (simp_all add: onBlur_def parseInt_9 parseInt_6)
  have bm: "onBlur (utf16 ''-3'') 0 = 0" and b0: "onBlur (utf16 ''0'') 0 = 0"
    by (simp_all add: onBlur_def parseInt_minus3 parseInt_0)
  have alone: "onBlur (utf16 ''9'') 3 = 6 \<and> onBlur (utf16 ''-3'') 3 = 0 \<and>
               onBlur (utf16 ''abc'') 3 = 0 \<and> onBlur (utf16 ''4'') 3 = 3"
    by (simp add: onBlur_def parseInt_9 parseInt_minus3 parseInt_abc parseInt_4)
  have change: "handleDensityChange (utf16 ''abc'') 3 = 3 \<and>
                handleDensityChange (utf16 ''4'') 3 = 4 \<and>
                handleDensityChange (160 # utf16 ''5'') 3 = 5"
    by (simp add: handleDensityChange_def parseInt_abc parseInt_4 parseInt_nbsp_5
          utf16_nonempty)
  show ?thesis
    using empty ignored parsed blur_nan blur_num blur nine minus b9 b6 bm b0 alone change
    by simp
qed

theorem density_input_clamped_witness:
  "parseInt (utf16 ''abc'') = None \<and> handleDensityChange (utf16 ''abc'') 3 = 3 \<and>
   parseInt (utf16 ''9'') = Some 9 \<and> handleDensityChange (utf16 ''9'') 3 = 6 \<and>
   onBlur (utf16 ''abc'') 3 = 0 \<and> onBlur (utf16 ''9'') 3 = 6 \<and>
   onBlur (utf16 ''abc'') (handleDensityChange (utf16 ''abc'') 3) = 0 \<and>
   0 \<le> onBlur (utf16 ''9'') (handleDensityChange (utf16 ''9'') 3) \<and>
   onBlur (utf16 ''9'') (handleDensityChange (utf16 ''9'') 3) \<le> 6"
  using density_input_clamped [of 3 "utf16 ''abc''" "utf16 ''abc''"]
        density_input_clamped [of 3 "utf16 ''9''" "utf16 ''9''"]
  by (simp add: parseInt_abc parseInt_9 utf16_nonempty)



text \<open>
  C10. For every amplitude of at most 10 that is not below \<open>-10\<close> (Configuration makes
  the amplitude a positive number, and all selectable amplitudes are among these) the
  clamp is the identity on the generated value, for every \<open>t\<close> and phase:
  \<open>amplitude * sin (2 * pi * (t + phase) / 2)\<close> lies in \<open>[-10, 10]\<close>, and the signal
  generation with the clamp equals the signal generation without it. The same holds
  with every operation rounded, for every host sine with values in \<open>[-1, 1]\<close> and
  whatever the argument \<open>z\<close> of the sine is: the rounded product is in \<open>[-10, 10]\<close> or
  NaN, the clamp returns it, and the two loops return the same samples or both do not
  return.
\<close>

theorem clamp_is_identity:
  assumes "- 10 \<le> amplitude" and "amplitude \<le> 10"
  shows "max (- 10) (min 10 (amplitude * sin (2 * pi * (t + phase) / 2))) =
           amplitude * sin (2 * pi * (t + phase) / 2) \<and>
         clampY (signal amplitude phase t) = signal amplitude phase t \<and>
         generate currentTime startTime timeWindow amplitude =
           generate_unclamped currentTime startTime timeWindow amplitude \<and>
         ((\<forall>x. \<bar>msin x\<bar> \<le> 1) \<longrightarrow>
            Math_max (Fin (- 10)) (Math_min (Fin 10) (fmul64 (Fin amplitude) (Math_sin msin z))) =
              fmul64 (Fin amplitude) (Math_sin msin z) \<and>
            generate64 msin currentTime startTime timeWindow amplitude =
              generate64_unclamped msin currentTime startTime timeWindow amplitude)"
proof -
  from assms have a: "\<bar>amplitude\<bar> \<le> 10" by simp
  have "clampY (signal amplitude phase t) = signal amplitude phase t"
    using a by (rule clampY_id)
  moreover from this have "max (- 10) (min 10 (amplitude * sin (2 * pi * (t + phase) / 2))) =
           amplitude * sin (2 * pi * (t + phase) / 2)"
    by (simp add: clampY_def signal_def Y_AXIS_MIN_def Y_AXIS_MAX_def)
  moreover have "generate currentTime startTime timeWindow amplitude =
           generate_unclamped currentTime startTime timeWindow amplitude"
    using a by (simp add: generate_def generate_unclamped_def sampleLoop_unclamped_eq)
  moreover have "(\<forall>x. \<bar>msin x\<bar> \<le> 1) \<longrightarrow>
            Math_max (Fin (- 10)) (Math_min (Fin 10) (fmul64 (Fin amplitude) (Math_sin msin z))) =
              fmul64 (Fin amplitude) (Math_sin msin z) \<and>
            generate64 msin currentTime startTime timeWindow amplitude =
              generate64_unclamped msin currentTime startTime timeWindow amplitude"
    using clamp64_product [OF a, of msin z] generate64_unclamped_eq [OF a, of msin]
    by blast
  ultimately show ?thesis by simp
qed

theorem clamp_is_identity_witness:
  "(- 10 :: real) \<le> 10 \<and> (10 :: real) \<le> 10 \<and> (\<forall>x :: real. \<bar>sin x\<bar> \<le> 1) \<and>
   clampY (signal 10 (1 / 2) 0) = 10 \<and>
   generate 20000 0 10000 10 = generate_unclamped 20000 0 10000 10 \<and>
   generate64 sin 20000 0 10000 10 = generate64_unclamped sin 20000 0 10000 10"
  using clamp_is_identity [of 10 0 "1 / 2" 20000 0 10000 sin]
  by (simp add: signal_def)

end
